theory Spec2Isabelle
  imports Main "HOL-Library.AList" "HOL-Library.Multiset"
begin

section \<open>Python values, exceptions and the HTTP boundary\<close>

text \<open>
  The program is \<^verbatim>\<open>maoer_csv.py\<close>. Every function of it is embedded under its own name.
  An exception is a value of \<open>py_error\<close>, and a function that may raise returns
  \<open>py_error + 'a\<close> (\<open>Inl\<close> the exception). The only loop that may run forever is the
  pagination loop of \<^verbatim>\<open>fetch_all_uids_by_comments\<close>; it and its callers return an
  \<open>option\<close>, where \<open>None\<close> stands for a call that never returns.

  Logging and the final \<^verbatim>\<open>print\<close> of \<^verbatim>\<open>runner\<close> are not modelled. A string is the
  list of the bytes of its UTF-8 encoding (splitting at a comma and comparing two strings
  give the same on the bytes as on the code points); JSON numbers are integers.
\<close>

datatype py_error =
    ConnectionError | HTTPError | JSONDecodeError
  | ParseError | KeyError | IndexError | ValueError | TypeError | OverflowError

text \<open>
  \<^verbatim>\<open>requests.RequestException\<close> is the base class of the exceptions raised by
  \<^verbatim>\<open>requests.get\<close> (here \<open>ConnectionError\<close>), by \<^verbatim>\<open>raise_for_status\<close>
  (\<open>HTTPError\<close>) and, since requests 2.27, by \<^verbatim>\<open>Response.json\<close>
  (\<^verbatim>\<open>requests.exceptions.JSONDecodeError\<close>).
\<close>

fun is_RequestException :: "py_error \<Rightarrow> bool" where
  "is_RequestException ConnectionError = True"
| "is_RequestException HTTPError = True"
| "is_RequestException JSONDecodeError = True"
| "is_RequestException _ = False"

text \<open>
  What the server answers to one GET: nothing (the transport fails), an error status,
  a body that does not decode, or a decoded body.
\<close>

datatype 'a response = NoResponse | BadStatus | Undecodable | Body 'a

text \<open>
  \<^verbatim>\<open>response = requests.get(url); response.raise_for_status(); response.json()\<close>
\<close>

fun http_json :: "'a response \<Rightarrow> py_error + 'a" where
  "http_json NoResponse = Inl ConnectionError"
| "http_json BadStatus = Inl HTTPError"
| "http_json Undecodable = Inl JSONDecodeError"
| "http_json (Body b) = Inr b"

text \<open>
  \<^verbatim>\<open>response = requests.get(url); response.raise_for_status(); ETree.fromstring(response.text)\<close>
\<close>

fun http_xml :: "'a response \<Rightarrow> py_error + 'a" where
  "http_xml NoResponse = Inl ConnectionError"
| "http_xml BadStatus = Inl HTTPError"
| "http_xml Undecodable = Inl ParseError"
| "http_xml (Body b) = Inr b"

text \<open>\<^verbatim>\<open>try: body  except requests.RequestException: return dflt\<close>\<close>

definition except_RequestException :: "py_error + 'a \<Rightarrow> 'a \<Rightarrow> py_error + 'a" where
  "except_RequestException body dflt =
     (case body of
        Inl e \<Rightarrow> if is_RequestException e then Inr dflt else Inl e
      | Inr v \<Rightarrow> Inr v)"

text \<open>\<^verbatim>\<open>try: body  except (requests.RequestException, ETree.ParseError): return dflt\<close>\<close>

definition except_RequestException_ParseError :: "py_error + 'a \<Rightarrow> 'a \<Rightarrow> py_error + 'a" where
  "except_RequestException_ParseError body dflt =
     (case body of
        Inl e \<Rightarrow> if is_RequestException e \<or> e = ParseError then Inr dflt else Inl e
      | Inr v \<Rightarrow> Inr v)"

text \<open>A comprehension whose element expression may raise: the first exception wins.\<close>

fun comprehension :: "('a \<Rightarrow> py_error + 'b) \<Rightarrow> 'a list \<Rightarrow> py_error + 'b list" where
  "comprehension f [] = Inr []"
| "comprehension f (x # xs) =
     (case f x of
        Inl e \<Rightarrow> Inl e
      | Inr y \<Rightarrow> (case comprehension f xs of Inl e \<Rightarrow> Inl e | Inr ys \<Rightarrow> Inr (y # ys)))"

text \<open>\<^verbatim>\<open>d[key]\<close> on a dictionary: a missing key raises \<^verbatim>\<open>KeyError\<close>.\<close>

definition subscript :: "'a option \<Rightarrow> py_error + 'a" where
  "subscript v = (case v of None \<Rightarrow> Inl KeyError | Some x \<Rightarrow> Inr x)"

text \<open>\<^verbatim>\<open>d.get(key, dflt)\<close>\<close>

definition get_default :: "'a option \<Rightarrow> 'a \<Rightarrow> 'a" where
  "get_default v dflt = (case v of None \<Rightarrow> dflt | Some x \<Rightarrow> x)"

text \<open>\<^verbatim>\<open>xs[i]\<close> on a list, for \<open>i \<ge> 0\<close>.\<close>

definition index :: "'a list \<Rightarrow> nat \<Rightarrow> py_error + 'a" where
  "index xs i = (if i < length xs then Inr (xs ! i) else Inl IndexError)"

subsection \<open>Strings\<close>

text \<open>\<^verbatim>\<open>s.split(",")\<close>: one field more than there are separators.\<close>

fun split :: "char \<Rightarrow> string \<Rightarrow> string list" where
  "split sep [] = [[]]"
| "split sep (c # cs) =
     (if c = sep then [] # split sep cs
      else (case split sep cs of [] \<Rightarrow> [[c]] | f # fs \<Rightarrow> (c # f) # fs))"

section \<open>Payloads\<close>

text \<open>
  The payloads have the shape the program reads. A member of type \<open>'a option\<close> may be
  missing from its JSON object (\<open>None\<close>); a member that is present holds a value of the
  type the endpoint documents.
\<close>

text \<open>\<^verbatim>\<open>/dramaapi/getdrama\<close>: \<^verbatim>\<open>info.drama\<close>, \<^verbatim>\<open>info.episodes.episode[]\<close>\<close>

record episode_json =
  ej_sound_id :: "int option"
  ej_soundstr :: "string option"
  ej_need_pay :: "int option"

record drama_json =
  dj_name :: "string option"
  dj_price :: "int option"
  dj_view_count :: "int option"
  dj_catalog_name :: "string option"

record episodes_json =
  ej_episode :: "episode_json list option"

record drama_info =
  di_drama :: "drama_json option"
  di_episodes :: "episodes_json option"

record getdrama_json =
  gd_info :: "drama_info option"

text \<open>\<^verbatim>\<open>/sound/getsound\<close>: \<^verbatim>\<open>info.sound\<close>\<close>

record sound_json =
  sj_view_count :: "int option"
  sj_view_count_formatted :: "string option"
  sj_comment_count :: "int option"
  sj_favorite_count :: "int option"
  sj_username :: "string option"
  sj_create_time :: "int option"

record sound_info =
  si_sound :: "sound_json option"

record getsound_json =
  gs_info :: "sound_info option"

text \<open>\<^verbatim>\<open>/sound/getdm\<close>: the children of the root element of the XML document\<close>

record element =
  tag :: string
  attrib :: "(string \<times> string) list"

text \<open>\<^verbatim>\<open>/site/getcomment\<close>: \<^verbatim>\<open>info.comment.Datas[]\<close>, \<^verbatim>\<open>info.comment.hasMore\<close>\<close>

record subcomment_json =
  sc_userid :: "int option"

record comment_json =
  cj_userid :: "int option"
  cj_subcomments :: "subcomment_json list option"

record comments_json =
  cs_Datas :: "comment_json list option"
  cs_hasMore :: "bool option"

record comment_info =
  ci_comment :: "comments_json option"

record getcomment_json =
  gc_info :: "comment_info option"

text \<open>The query of one page: \<^verbatim>\<open>type=1&e_id={sound_id}&order=3&p={page}&pagesize=100\<close>\<close>

record comment_query =
  q_e_id :: int
  q_p :: nat
  q_pagesize :: nat

type_synonym datetime = int

text \<open>
  The world outside the program: what each endpoint answers to each URL, and the
  platform's \<^verbatim>\<open>datetime.datetime.fromtimestamp\<close>, which turns epoch seconds into a local
  time (a point of a linear order, here an integer) or raises. The answers do not
  change during a run.

  Two builtins of Python that the program applies to strings are part of the world as
  well, since what they do depends on the Unicode tables and on the settings of the
  interpreter: \<open>int_str s\<close> is \<^verbatim>\<open>int(s)\<close> for a string \<open>s\<close>, or \<open>None\<close> where \<^verbatim>\<open>int(s)\<close> raises
  \<^verbatim>\<open>ValueError\<close> (it raises nothing else on a string), and \<open>str_strip s\<close> is \<^verbatim>\<open>s.strip()\<close>.
  Nothing is assumed about either of them.
\<close>

record world =
  getdrama :: "string \<Rightarrow> getdrama_json response"
  getsound :: "int \<Rightarrow> getsound_json response"
  getdm :: "int \<Rightarrow> element list response"
  getcomment :: "comment_query \<Rightarrow> getcomment_json response"
  fromtimestamp :: "int \<Rightarrow> py_error + datetime"
  int_str :: "string \<Rightarrow> int option"
  str_strip :: "string \<Rightarrow> string"

text \<open>\<^verbatim>\<open>int(s)\<close> for a string \<open>s\<close>.\<close>

definition py_int :: "world \<Rightarrow> string \<Rightarrow> py_error + int" where
  "py_int w s = (case int_str w s of None \<Rightarrow> Inl ValueError | Some n \<Rightarrow> Inr n)"

text \<open>A cell of a CSV row.\<close>

datatype cell = CNone | CInt int | CStr string | CTime datetime

definition opt_int :: "int option \<Rightarrow> cell" where
  "opt_int v = (case v of None \<Rightarrow> CNone | Some n \<Rightarrow> CInt n)"

definition opt_str :: "string option \<Rightarrow> cell" where
  "opt_str v = (case v of None \<Rightarrow> CNone | Some s \<Rightarrow> CStr s)"

definition opt_time :: "datetime option \<Rightarrow> cell" where
  "opt_time v = (case v of None \<Rightarrow> CNone | Some t \<Rightarrow> CTime t)"

section \<open>The API client\<close>

text \<open>The entries of \<^verbatim>\<open>sound_lists\<close>.\<close>

record sound =
  s_sound_id :: int
  s_sound_title :: string
  s_need_pay :: int

definition sound_of_episode :: "episode_json \<Rightarrow> py_error + sound" where
  "sound_of_episode episode =
     (case subscript (ej_sound_id episode) of
        Inl e \<Rightarrow> Inl e
      | Inr sid \<Rightarrow>
          (case subscript (ej_soundstr episode) of
             Inl e \<Rightarrow> Inl e
           | Inr title \<Rightarrow>
               Inr \<lparr>s_sound_id = sid, s_sound_title = title,
                    s_need_pay = get_default (ej_need_pay episode) 0\<rparr>))"

definition get_drama_sound_lists ::
  "world \<Rightarrow> string \<Rightarrow> py_error + (sound list \<times> cell \<times> cell \<times> cell \<times> cell)" where
  "get_drama_sound_lists w drama_id =
     except_RequestException
       (case http_json (getdrama w drama_id) of
          Inl e \<Rightarrow> Inl e
        | Inr json \<Rightarrow>
            (let data = get_default (gd_info json) \<lparr>di_drama = None, di_episodes = None\<rparr>;
                 drama = get_default (di_drama data)
                           \<lparr>dj_name = None, dj_price = None, dj_view_count = None,
                            dj_catalog_name = None\<rparr>;
                 episodes = get_default
                              (ej_episode (get_default (di_episodes data) \<lparr>ej_episode = None\<rparr>)) []
             in case comprehension sound_of_episode episodes of
                  Inl e \<Rightarrow> Inl e
                | Inr sound_lists \<Rightarrow>
                    Inr (sound_lists, opt_str (dj_name drama), opt_int (dj_price drama),
                         opt_int (dj_view_count drama), opt_str (dj_catalog_name drama))))
       ([], CStr [], CStr [], CStr [], CStr [])"

text \<open>
  The dictionary that \<^verbatim>\<open>get_sound_detail\<close> returns is either empty (\<open>None\<close>) or holds
  \<^verbatim>\<open>sound_id\<close> and these six keys; a value is \<open>None\<close> where \<^verbatim>\<open>sound.get\<close> found no
  member.
\<close>

record detail =
  view_count :: "int option"
  view_count_formatted :: "string option"
  comment_count :: "int option"
  favorite_count :: "int option"
  username :: "string option"
  create_time :: datetime

text \<open>\<^verbatim>\<open>response.json().get("info", {}).get("sound", {})\<close>\<close>

definition info_sound :: "getsound_json \<Rightarrow> sound_json" where
  "info_sound json =
     get_default (si_sound (get_default (gs_info json) \<lparr>si_sound = None\<rparr>))
       \<lparr>sj_view_count = None, sj_view_count_formatted = None, sj_comment_count = None,
        sj_favorite_count = None, sj_username = None, sj_create_time = None\<rparr>"

definition get_sound_detail :: "world \<Rightarrow> int \<Rightarrow> py_error + detail option" where
  "get_sound_detail w sound_id =
     except_RequestException
       (case http_json (getsound w sound_id) of
          Inl e \<Rightarrow> Inl e
        | Inr json \<Rightarrow>
            (let sound = info_sound json
             in case fromtimestamp w (get_default (sj_create_time sound) 0) of
                  Inl e \<Rightarrow> Inl e
                | Inr t \<Rightarrow>
                    Inr (Some \<lparr>view_count = sj_view_count sound,
                               view_count_formatted = sj_view_count_formatted sound,
                               comment_count = sj_comment_count sound,
                               favorite_count = sj_favorite_count sound,
                               username = sj_username sound,
                               create_time = t\<rparr>)))
       None"

text \<open>
  One \<^verbatim>\<open><d>\<close> element of the set comprehension of \<^verbatim>\<open>fetch_all_danmakus\<close>: the condition
  \<^verbatim>\<open>item.attrib["p"].split(",")[1] != "4"\<close> first, and only where it holds the element
  \<^verbatim>\<open>int(item.attrib["p"].split(",")[6])\<close>. \<open>None\<close> is an element that is filtered out.
\<close>

definition danmaku_uid :: "world \<Rightarrow> element \<Rightarrow> py_error + int option" where
  "danmaku_uid w item =
     (case subscript (map_of (attrib item) ''p'') of
        Inl e \<Rightarrow> Inl e
      | Inr p \<Rightarrow>
          (case index (split CHR '','' p) 1 of
             Inl e \<Rightarrow> Inl e
           | Inr kind \<Rightarrow>
               if kind \<noteq> ''4'' then
                 (case index (split CHR '','' p) 6 of
                    Inl e \<Rightarrow> Inl e
                  | Inr field \<Rightarrow> (case py_int w field of Inl e \<Rightarrow> Inl e | Inr uid \<Rightarrow> Inr (Some uid)))
               else Inr None))"

text \<open>\<^verbatim>\<open>root.findall("d")\<close>: the children of the root with that tag.\<close>

definition findall :: "string \<Rightarrow> element list \<Rightarrow> element list" where
  "findall t children = filter (\<lambda>item. tag item = t) children"

definition fetch_all_danmakus :: "world \<Rightarrow> int \<Rightarrow> py_error + int set" where
  "fetch_all_danmakus w sound_id =
     except_RequestException_ParseError
       (case http_xml (getdm w sound_id) of
          Inl e \<Rightarrow> Inl e
        | Inr pp_comments_xml \<Rightarrow>
            (case comprehension (danmaku_uid w) (findall ''d'' pp_comments_xml) of
               Inl e \<Rightarrow> Inl e
             | Inr uids \<Rightarrow> Inr (set (List.map_filter id uids))))
       {}"

text \<open>\<^verbatim>\<open>data["info"]["comment"]\<close>\<close>

definition info_comment :: "getcomment_json \<Rightarrow> py_error + comments_json" where
  "info_comment data =
     (case subscript (gc_info data) of
        Inl e \<Rightarrow> Inl e
      | Inr info \<Rightarrow> subscript (ci_comment info))"

text \<open>\<^verbatim>\<open>data["info"]["comment"]["Datas"]\<close>\<close>

definition info_comment_Datas :: "getcomment_json \<Rightarrow> py_error + comment_json list" where
  "info_comment_Datas data =
     (case info_comment data of Inl e \<Rightarrow> Inl e | Inr c \<Rightarrow> subscript (cs_Datas c))"

text \<open>\<^verbatim>\<open>int(sub["userid"]) for sub in comment["subcomments"]\<close>\<close>

definition subcomment_uids :: "comment_json \<Rightarrow> py_error + int list" where
  "subcomment_uids comment =
     (case subscript (cj_subcomments comment) of
        Inl e \<Rightarrow> Inl e
      | Inr subs \<Rightarrow> comprehension (\<lambda>sub. subscript (sc_userid sub)) subs)"

definition extract_user_ids :: "getcomment_json \<Rightarrow> py_error + int set" where
  "extract_user_ids data =
     (case info_comment_Datas data of
        Inl e \<Rightarrow> Inl e
      | Inr datas \<Rightarrow>
          (case comprehension (\<lambda>comment. subscript (cj_userid comment)) datas of
             Inl e \<Rightarrow> Inl e
           | Inr user_ids \<Rightarrow>
               (case info_comment_Datas data of
                  Inl e \<Rightarrow> Inl e
                | Inr datas2 \<Rightarrow>
                    (case comprehension subcomment_uids datas2 of
                       Inl e \<Rightarrow> Inl e
                     | Inr subs \<Rightarrow> Inr (set user_ids \<union> set (concat subs))))))"

text \<open>\<^verbatim>\<open>data["info"]["comment"]["hasMore"]\<close>\<close>

definition info_comment_hasMore :: "getcomment_json \<Rightarrow> py_error + bool" where
  "info_comment_hasMore data =
     (case info_comment data of Inl e \<Rightarrow> Inl e | Inr c \<Rightarrow> subscript (cs_hasMore c))"

definition endpoint :: "int \<Rightarrow> nat \<Rightarrow> comment_query" where
  "endpoint sound_id page = \<lparr>q_e_id = sound_id, q_p = page, q_pagesize = 100\<rparr>"

text \<open>
  The \<^verbatim>\<open>while True\<close> loop of \<^verbatim>\<open>fetch_all_uids_by_comments\<close>, from page \<open>page\<close> with the
  identifiers collected so far. \<open>sent\<close> records the queries issued, in order. The loop
  ends by \<^verbatim>\<open>break\<close> or by an exception, or not at all.
\<close>

partial_function (option) comment_pages ::
  "world \<Rightarrow> int \<Rightarrow> nat \<Rightarrow> int set \<Rightarrow> comment_query list
     \<Rightarrow> (comment_query list \<times> (py_error + int set)) option" where
  "comment_pages w sound_id page comments_uids sent =
     (case http_json (getcomment w (endpoint sound_id page)) of
        Inl e \<Rightarrow> Some (sent @ [endpoint sound_id page], Inl e)
      | Inr data \<Rightarrow>
          (case extract_user_ids data of
             Inl e \<Rightarrow> Some (sent @ [endpoint sound_id page], Inl e)
           | Inr uids \<Rightarrow>
               (case info_comment_hasMore data of
                  Inl e \<Rightarrow> Some (sent @ [endpoint sound_id page], Inl e)
                | Inr has_more \<Rightarrow>
                    if \<not> has_more then Some (sent @ [endpoint sound_id page], Inr (comments_uids \<union> uids))
                    else comment_pages w sound_id (page + 1) (comments_uids \<union> uids)
                           (sent @ [endpoint sound_id page]))))"

declare comment_pages.simps [code]

text \<open>The queries that \<^verbatim>\<open>fetch_all_uids_by_comments\<close> issues, and its outcome.\<close>

definition fetch_all_uids_by_comments_trace ::
  "world \<Rightarrow> int \<Rightarrow> (comment_query list \<times> (py_error + int set)) option" where
  "fetch_all_uids_by_comments_trace w sound_id = comment_pages w sound_id 1 {} []"

definition fetch_all_uids_by_comments :: "world \<Rightarrow> int \<Rightarrow> (py_error + int set) option" where
  "fetch_all_uids_by_comments w sound_id =
     map_option snd (fetch_all_uids_by_comments_trace w sound_id)"

section \<open>The episode processor\<close>

text \<open>
  The dictionary \<^verbatim>\<open>sound_detail\<close> that \<^verbatim>\<open>process_sound\<close> returns: what
  \<^verbatim>\<open>get_sound_detail\<close> returned (\<open>detail\<close>, \<open>None\<close> for the empty dictionary), updated
  with six keys that are therefore always present.
\<close>

record sound_detail =
  detail :: "detail option"
  sound_id :: int
  sound_title :: string
  need_pay :: int
  danmaku_uids :: "int set"
  comment_uids :: "int set"
  total_sound_uids :: "int set"

definition process_sound :: "world \<Rightarrow> sound \<Rightarrow> (py_error + sound_detail) option" where
  "process_sound w sound =
     (case get_sound_detail w (s_sound_id sound) of
        Inl e \<Rightarrow> Some (Inl e)
      | Inr d \<Rightarrow>
          (case fetch_all_danmakus w (s_sound_id sound) of
             Inl e \<Rightarrow> Some (Inl e)
           | Inr dm \<Rightarrow>
               (case fetch_all_uids_by_comments w (s_sound_id sound) of
                  None \<Rightarrow> None
                | Some (Inl e) \<Rightarrow> Some (Inl e)
                | Some (Inr cm) \<Rightarrow>
                    Some (Inr \<lparr>detail = d,
                               sound_id = s_sound_id sound,
                               sound_title = s_sound_title sound,
                               need_pay = s_need_pay sound,
                               danmaku_uids = dm,
                               comment_uids = cm,
                               total_sound_uids = dm \<union> cm\<rparr>))))"

section \<open>The drama aggregator\<close>

text \<open>\<^verbatim>\<open>sound_detail['create_time']\<close>\<close>

definition lookup_create_time :: "sound_detail \<Rightarrow> py_error + datetime" where
  "lookup_create_time sd = (case detail sd of None \<Rightarrow> Inl KeyError | Some d \<Rightarrow> Inr (create_time d))"

text \<open>\<^verbatim>\<open>int(sound_detail['view_count'])\<close>; \<^verbatim>\<open>int(None)\<close> raises \<^verbatim>\<open>TypeError\<close>.\<close>

definition int_view_count :: "sound_detail \<Rightarrow> py_error + int" where
  "int_view_count sd =
     (case detail sd of
        None \<Rightarrow> Inl KeyError
      | Some d \<Rightarrow> (case view_count d of None \<Rightarrow> Inl TypeError | Some n \<Rightarrow> Inr n))"

text \<open>\<^verbatim>\<open>len(sound_detail)\<close>, the number of keys; \<^verbatim>\<open>if sound_detail:\<close> tests that it is not 0.\<close>

definition len_keys :: "sound_detail \<Rightarrow> nat" where
  "len_keys sd = (case detail sd of None \<Rightarrow> 6 | Some d \<Rightarrow> 12)"

text \<open>The local variables of \<^verbatim>\<open>process_drama_id\<close> that the loop over the futures updates.\<close>

record totals =
  sound_data :: "sound_detail list"
  total_paid_udis :: "int set"
  total_free_udis :: "int set"
  total_paid_danmaku_udis :: "int set"
  total_paid_comment_uids :: "int set"
  total_free_danmaku_udis :: "int set"
  total_free_comment_uids :: "int set"
  paid_view_count :: int
  free_view_count :: int
  first_sound_create_time :: "datetime option"

definition initial :: totals where
  "initial =
     \<lparr>sound_data = [], total_paid_udis = {}, total_free_udis = {},
      total_paid_danmaku_udis = {}, total_paid_comment_uids = {},
      total_free_danmaku_udis = {}, total_free_comment_uids = {},
      paid_view_count = 0, free_view_count = 0, first_sound_create_time = None\<rparr>"

text \<open>
  Lines 137 and 138: \<^verbatim>\<open>if first_sound_create_time is None or
  sound_detail['create_time'] < first_sound_create_time:
  first_sound_create_time = sound_detail['create_time']\<close>
\<close>

definition earliest :: "totals \<Rightarrow> sound_detail \<Rightarrow> py_error + totals" where
  "earliest st sd =
     (case (case first_sound_create_time st of
              None \<Rightarrow> Inr True
            | Some first \<Rightarrow>
                (case lookup_create_time sd of Inl e \<Rightarrow> Inl e | Inr t \<Rightarrow> Inr (t < first))) of
        Inl e \<Rightarrow> Inl e
      | Inr c \<Rightarrow>
          if c then
            (case lookup_create_time sd of
               Inl e \<Rightarrow> Inl e
             | Inr t \<Rightarrow> Inr (st\<lparr>first_sound_create_time := Some t\<rparr>))
          else Inr st)"

text \<open>Lines 139 to 152, for the future of \<open>sound\<close> whose result is \<open>sd\<close>.\<close>

definition accumulate :: "totals \<Rightarrow> sound \<Rightarrow> sound_detail \<Rightarrow> py_error + totals" where
  "accumulate st sound sd =
     (if len_keys sd \<noteq> 0 then
        (if s_need_pay sound > 0 then
           (case int_view_count sd of
              Inl e \<Rightarrow> Inl e
            | Inr v \<Rightarrow>
                Inr (st\<lparr>total_paid_udis := total_paid_udis st \<union> total_sound_uids sd,
                        paid_view_count := paid_view_count st + v,
                        total_paid_danmaku_udis := total_paid_danmaku_udis st \<union> danmaku_uids sd,
                        total_paid_comment_uids := total_paid_comment_uids st \<union> comment_uids sd,
                        sound_data := sound_data st @ [sd]\<rparr>))
         else
           (case int_view_count sd of
              Inl e \<Rightarrow> Inl e
            | Inr v \<Rightarrow>
                Inr (st\<lparr>total_free_udis := total_free_udis st \<union> total_sound_uids sd,
                        total_free_danmaku_udis := total_free_danmaku_udis st \<union> danmaku_uids sd,
                        total_free_comment_uids := total_free_comment_uids st \<union> comment_uids sd,
                        free_view_count := free_view_count st + v,
                        sound_data := sound_data st @ [sd]\<rparr>)))
      else Inr st)"

text \<open>
  The body of \<^verbatim>\<open>for future in as_completed(future_to_sound)\<close> for one future:
  \<^verbatim>\<open>future.result()\<close> raises what \<^verbatim>\<open>process_sound\<close> raised.
\<close>

definition completed :: "totals \<Rightarrow> sound \<Rightarrow> py_error + sound_detail \<Rightarrow> py_error + totals" where
  "completed st sound result =
     (case result of
        Inl e \<Rightarrow> Inl e
      | Inr sd \<Rightarrow>
          (case earliest st sd of Inl e \<Rightarrow> Inl e | Inr st1 \<Rightarrow> accumulate st1 sound sd))"

fun as_completed :: "totals \<Rightarrow> (sound \<times> (py_error + sound_detail)) list \<Rightarrow> py_error + totals" where
  "as_completed st [] = Inr st"
| "as_completed st ((sound, result) # futures) =
     (case completed st sound result of
        Inl e \<Rightarrow> Inl e
      | Inr st1 \<Rightarrow> as_completed st1 futures)"

text \<open>
  The \<^verbatim>\<open>with ThreadPoolExecutor()\<close> block. One future per entry of \<^verbatim>\<open>sound_lists\<close> runs
  \<^verbatim>\<open>process_sound\<close>; \<open>order\<close> gives the entries in the order in which their futures
  complete. The block is left, normally or by an exception, only when every future
  is done, so a single \<^verbatim>\<open>process_sound\<close> that never returns keeps it from returning.
\<close>

definition executor ::
  "world \<Rightarrow> (sound list \<Rightarrow> sound list) \<Rightarrow> sound list \<Rightarrow> (py_error + totals) option" where
  "executor w order sound_lists =
     (case those (map (process_sound w) (order sound_lists)) of
        None \<Rightarrow> None
      | Some results \<Rightarrow> Some (as_completed initial (zip (order sound_lists) results)))"

text \<open>The rows written so far through the two \<^verbatim>\<open>csv.writer\<close> objects.\<close>

record writers =
  sound_writer :: "cell list list"
  drama_writer :: "cell list list"

definition sound_row :: "sound_detail \<Rightarrow> py_error + cell list" where
  "sound_row sd =
     (case lookup_create_time sd of
        Inl e \<Rightarrow> Inl e
      | Inr t \<Rightarrow>
          Inr [CStr (sound_title sd), CTime t, CInt (need_pay sd),
               CInt (int (card (danmaku_uids sd))), CInt (int (card (comment_uids sd))),
               CInt (int (card (total_sound_uids sd)))])"

text \<open>\<^verbatim>\<open>for sound_detail in sound_data: sound_writer.writerow([...])\<close>\<close>

fun write_sound_rows :: "sound_detail list \<Rightarrow> writers \<Rightarrow> writers \<times> (py_error + unit)" where
  "write_sound_rows [] out = (out, Inr ())"
| "write_sound_rows (sd # rest) out =
     (case sound_row sd of
        Inl e \<Rightarrow> (out, Inl e)
      | Inr row \<Rightarrow> write_sound_rows rest (out\<lparr>sound_writer := sound_writer out @ [row]\<rparr>))"

definition drama_row :: "string \<Rightarrow> cell \<Rightarrow> cell \<Rightarrow> cell \<Rightarrow> totals \<Rightarrow> cell list" where
  "drama_row drama_id name price views st =
     [CStr drama_id, name, opt_time (first_sound_create_time st), price, views,
      CInt (paid_view_count st), CInt (free_view_count st),
      CInt (int (card (total_paid_danmaku_udis st))), CInt (int (card (total_paid_comment_uids st))),
      CInt (int (card (total_free_danmaku_udis st))), CInt (int (card (total_free_comment_uids st))),
      CInt (int (card (total_paid_udis st))), CInt (int (card (total_free_udis st)))]"

text \<open>
  \<^verbatim>\<open>process_drama_id\<close> returns the writers as it leaves them together with its outcome:
  the exception that leaves it, or \<^verbatim>\<open>(sound_data, total_paid_udis)\<close>.
\<close>

definition process_drama_id ::
  "world \<Rightarrow> (sound list \<Rightarrow> sound list) \<Rightarrow> string \<Rightarrow> writers
     \<Rightarrow> (writers \<times> (py_error + sound_detail list \<times> int set)) option" where
  "process_drama_id w order drama_id out =
     (case get_drama_sound_lists w drama_id of
        Inl e \<Rightarrow> Some (out, Inl e)
      | Inr (sound_lists, name, price, views, catalog_name) \<Rightarrow>
          (case (if sound_lists \<noteq> [] then executor w order sound_lists else Some (Inr initial)) of
             None \<Rightarrow> None
           | Some (Inl e) \<Rightarrow> Some (out, Inl e)
           | Some (Inr st) \<Rightarrow>
               (let sorted_data = sort_key sound_id (sound_data st) in
                case write_sound_rows sorted_data out of
                  (out1, Inl e) \<Rightarrow> Some (out1, Inl e)
                | (out1, Inr u) \<Rightarrow>
                    Some (out1\<lparr>drama_writer :=
                                 drama_writer out1 @ [drama_row drama_id name price views st]\<rparr>,
                          Inr (sorted_data, total_paid_udis st)))))"

section \<open>The run\<close>

definition sound_header :: "cell list" where
  "sound_header = map (\<lambda>bytes. CStr (map char_of bytes))
     [[229, 163, 176, 233, 159, 179, 230, 160, 135, 233, 162, 152],
      [229, 136, 155, 229, 187, 186, 230, 151, 182, 233, 151, 180],
      [230, 152, 175, 229, 144, 166, 233, 156, 128, 232, 166, 129, 228, 187, 152, 232, 180, 185],
      [229, 188, 185, 229, 185, 149, 231, 148, 168, 230, 136, 183, 73, 68],
      [232, 175, 132, 232, 174, 186, 231, 148, 168, 230, 136, 183, 73, 68],
      [230, 128, 187, 231, 148, 168, 230, 136, 183, 73, 68 :: nat]]"

definition drama_header :: "cell list" where
  "drama_header = map (\<lambda>bytes. CStr (map char_of bytes))
     [[229, 137, 167, 233, 155, 134, 73, 68],
      [229, 137, 167, 233, 155, 134, 229, 144, 141, 231, 167, 176],
      [233, 166, 150, 228, 184, 170, 229, 163, 176, 233, 159, 179, 229, 136, 155, 229, 187, 186,
       230, 151, 182, 233, 151, 180],
      [228, 187, 183, 230, 160, 188],
      [230, 128, 187, 232, 167, 130, 231, 156, 139, 230, 172, 161, 230, 149, 176],
      [228, 187, 152, 232, 180, 185, 232, 167, 130, 231, 156, 139, 230, 172, 161, 230, 149, 176],
      [229, 133, 141, 232, 180, 185, 232, 167, 130, 231, 156, 139, 230, 172, 161, 230, 149, 176],
      [228, 187, 152, 232, 180, 185, 229, 188, 185, 229, 185, 149, 231, 148, 168, 230, 136, 183, 73, 68],
      [228, 187, 152, 232, 180, 185, 232, 175, 132, 232, 174, 186, 231, 148, 168, 230, 136, 183, 73, 68],
      [229, 133, 141, 232, 180, 185, 229, 188, 185, 229, 185, 149, 231, 148, 168, 230, 136, 183, 73, 68],
      [229, 133, 141, 232, 180, 185, 232, 175, 132, 232, 174, 186, 231, 148, 168, 230, 136, 183, 73, 68],
      [228, 187, 152, 232, 180, 185, 230, 128, 187, 231, 148, 168, 230, 136, 183, 73, 68],
      [229, 133, 141, 232, 180, 185, 230, 128, 187, 231, 148, 168, 230, 136, 183, 73, 68 :: nat]]"

text \<open>
  \<^verbatim>\<open>for drama_id in drama_ids.split(','):\<close> from the \<open>i\<close>-th identifier on;
  \<open>completion i\<close> is the order in which the futures of the \<open>i\<close>-th call of
  \<^verbatim>\<open>process_drama_id\<close> complete.
\<close>

fun dramas ::
  "world \<Rightarrow> (nat \<Rightarrow> sound list \<Rightarrow> sound list) \<Rightarrow> nat \<Rightarrow> string list \<Rightarrow> writers
     \<Rightarrow> (string \<times> sound_detail list) list \<Rightarrow> int set
     \<Rightarrow> (writers \<times> (py_error + (string \<times> sound_detail list) list \<times> int set)) option" where
  "dramas w completion i [] out drama_sound all_paid_total_uids =
     Some (out, Inr (drama_sound, all_paid_total_uids))"
| "dramas w completion i (drama_id # rest) out drama_sound all_paid_total_uids =
     (case process_drama_id w (completion i) (str_strip w drama_id) out of
        None \<Rightarrow> None
      | Some (out1, Inl e) \<Rightarrow> Some (out1, Inl e)
      | Some (out1, Inr (records, paid_udis)) \<Rightarrow>
          dramas w completion (i + 1) rest out1
            (AList.update drama_id records drama_sound)
            (all_paid_total_uids \<union> paid_udis))"

text \<open>
  \<^verbatim>\<open>runner\<close>, for the line \<open>drama_ids\<close> that \<^verbatim>\<open>get_user_input\<close> returns. The writers it
  returns are the contents of \<^verbatim>\<open>sound_data.csv\<close> and \<^verbatim>\<open>drama_data.csv\<close> when it ends.
\<close>

definition runner ::
  "world \<Rightarrow> (nat \<Rightarrow> sound list \<Rightarrow> sound list) \<Rightarrow> string
     \<Rightarrow> (writers \<times> (py_error + (string \<times> sound_detail list) list \<times> int set)) option" where
  "runner w completion drama_ids =
     dramas w completion 0 (split CHR '','' drama_ids)
       \<lparr>sound_writer = [sound_header], drama_writer = [drama_header]\<rparr> [] {}"

section \<open>Notions used to state the properties\<close>

text \<open>
  The definitions of this section are not part of the program. They name what the
  specification talks about, so that the theorems can compare it with what the program
  computes.
\<close>

text \<open>
  The field at index \<open>i\<close> of the comma-separated \<^verbatim>\<open>p\<close> attribute of an element, if the element
  has the attribute and the attribute has that many fields.
\<close>

definition p_field :: "element \<Rightarrow> nat \<Rightarrow> string option" where
  "p_field item i =
     (case map_of (attrib item) ''p'' of
        None \<Rightarrow> None
      | Some p \<Rightarrow> if i < length (split CHR '','' p) then Some (split CHR '','' p ! i) else None)"

text \<open>
  A page of the threaded-comment endpoint that has both members:
  \<^verbatim>\<open>{"info": {"comment": {"Datas": [...], "hasMore": ...}}}\<close>
\<close>

definition comment_page :: "comment_json list \<Rightarrow> bool \<Rightarrow> getcomment_json" where
  "comment_page datas has_more =
     \<lparr>gc_info = Some \<lparr>ci_comment = Some \<lparr>cs_Datas = Some datas, cs_hasMore = Some has_more\<rparr>\<rparr>\<rparr>"

text \<open>
  The identifiers a comment carries: its own \<^verbatim>\<open>userid\<close> and the \<^verbatim>\<open>userid\<close> of each of its
  replies, as far as they are present.
\<close>

definition comment_userids :: "comment_json \<Rightarrow> int set" where
  "comment_userids c =
     set_option (cj_userid c) \<union> (\<Union>sub \<in> set (get_default (cj_subcomments c) []). set_option (sc_userid sub))"

text \<open>
  A comment with all the members that \<^verbatim>\<open>extract_user_ids\<close> subscripts.
\<close>

definition complete_comment :: "comment_json \<Rightarrow> bool" where
  "complete_comment c \<longleftrightarrow>
     cj_userid c \<noteq> None \<and> cj_subcomments c \<noteq> None \<and> (\<forall>sub \<in> set (get_default (cj_subcomments c) []). sc_userid sub \<noteq> None)"

text \<open>
  An episode record that has a creation time and an integer view count: the detail fetch
  succeeded and its payload had a \<^verbatim>\<open>view_count\<close>.
\<close>

definition complete_record :: "sound_detail \<Rightarrow> bool" where
  "complete_record sd \<longleftrightarrow> (\<exists>d v. detail sd = Some d \<and> view_count d = Some v)"

text \<open>
  The creation time and the view count of a complete record.
\<close>

definition created :: "sound_detail \<Rightarrow> datetime" where
  "created sd = (case detail sd of None \<Rightarrow> 0 | Some d \<Rightarrow> create_time d)"

definition views_of :: "sound_detail \<Rightarrow> int" where
  "views_of sd = (case int_view_count sd of Inl e \<Rightarrow> 0 | Inr v \<Rightarrow> v)"

text \<open>
  The paid and the free partition.
\<close>

definition paid :: "sound_detail \<Rightarrow> bool" where
  "paid sd \<longleftrightarrow> need_pay sd > 0"

definition free :: "sound_detail \<Rightarrow> bool" where
  "free sd \<longleftrightarrow> \<not> need_pay sd > 0"

text \<open>
  The aggregates of the specification (section 4.3) over a list of records, starting from
  given totals: the earliest creation time, and per partition the unions of the
  identifier sets and the sum of the view counts.
\<close>

definition earliest_of :: "datetime option \<Rightarrow> sound_detail list \<Rightarrow> datetime option" where
  "earliest_of first sds =
     (if sds = [] then first else Some (Min (set_option first \<union> created ` set sds)))"

definition summary :: "totals \<Rightarrow> sound_detail list \<Rightarrow> totals" where
  "summary st sds =
     \<lparr>sound_data = sound_data st @ sds,
      total_paid_udis = total_paid_udis st \<union> (\<Union>sd \<in> set (filter paid sds). total_sound_uids sd),
      total_free_udis = total_free_udis st \<union> (\<Union>sd \<in> set (filter free sds). total_sound_uids sd),
      total_paid_danmaku_udis =
        total_paid_danmaku_udis st \<union> (\<Union>sd \<in> set (filter paid sds). danmaku_uids sd),
      total_paid_comment_uids =
        total_paid_comment_uids st \<union> (\<Union>sd \<in> set (filter paid sds). comment_uids sd),
      total_free_danmaku_udis =
        total_free_danmaku_udis st \<union> (\<Union>sd \<in> set (filter free sds). danmaku_uids sd),
      total_free_comment_uids =
        total_free_comment_uids st \<union> (\<Union>sd \<in> set (filter free sds). comment_uids sd),
      paid_view_count = paid_view_count st + sum_list (map views_of (filter paid sds)),
      free_view_count = free_view_count st + sum_list (map views_of (filter free sds)),
      first_sound_create_time = earliest_of (first_sound_create_time st) sds\<rparr>"

text \<open>
  The row of a complete record in the episode file.
\<close>

definition episode_row :: "sound_detail \<Rightarrow> cell list" where
  "episode_row sd =
     [CStr (sound_title sd), CTime (created sd), CInt (need_pay sd),
      CInt (int (card (danmaku_uids sd))), CInt (int (card (comment_uids sd))),
      CInt (int (card (total_sound_uids sd)))]"

text \<open>
  The summary row of a drama without episodes.
\<close>

definition default_row :: "string \<Rightarrow> cell \<Rightarrow> cell \<Rightarrow> cell \<Rightarrow> cell list" where
  "default_row drama_id name price views =
     [CStr drama_id, name, CNone, price, views,
      CInt 0, CInt 0, CInt 0, CInt 0, CInt 0, CInt 0, CInt 0, CInt 0]"

text \<open>
  The writers \<open>out\<close> after the rows of \<open>new\<close> have been written as well.
\<close>

definition append_rows :: "writers \<Rightarrow> writers \<Rightarrow> writers" where
  "append_rows out new =
     \<lparr>sound_writer = sound_writer out @ sound_writer new,
      drama_writer = drama_writer out @ drama_writer new\<rparr>"

section \<open>Concrete worlds\<close>

text \<open>
\<^verbatim>\<open><d p="..."/>\<close>
\<close>

definition danmaku :: "string \<Rightarrow> element" where
  "danmaku p = \<lparr>tag = ''d'', attrib = [(''p'', p)]\<rparr>"

text \<open>
\<^verbatim>\<open>{"info": {"sound": {"view_count": ..., "create_time": ...}}}\<close>
\<close>

definition sound_page :: "int \<Rightarrow> int \<Rightarrow> getsound_json" where
  "sound_page views timestamp =
     \<lparr>gs_info = Some \<lparr>si_sound = Some
        \<lparr>sj_view_count = Some views, sj_view_count_formatted = None, sj_comment_count = None,
         sj_favorite_count = None, sj_username = None, sj_create_time = Some timestamp\<rparr>\<rparr>\<rparr>"

text \<open>
  The builtins of the concrete worlds. On a string of ASCII characters, \<open>ascii_strip\<close> is
  \<^verbatim>\<open>str.strip\<close> and \<open>ascii_int\<close> is \<^verbatim>\<open>int\<close> (with the default limit of 4300 digits of
  Python 3.11): blanks around an optional sign and digits that single underscores may
  separate. The concrete worlds apply them to such strings only; on other strings they
  are not Python's.
\<close>

definition strip_space :: "char \<Rightarrow> bool" where
  "strip_space c =
     (let n = (of_char c :: nat) in n = 32 \<or> (9 \<le> n \<and> n \<le> 13) \<or> (28 \<le> n \<and> n \<le> 31))"

definition ascii_strip :: "string \<Rightarrow> string" where
  "ascii_strip s = rev (dropWhile strip_space (rev (dropWhile strip_space s)))"

definition int_space :: "char \<Rightarrow> bool" where
  "int_space c = (let n = (of_char c :: nat) in n = 32 \<or> (9 \<le> n \<and> n \<le> 13))"

definition is_digit :: "char \<Rightarrow> bool" where
  "is_digit c = (let n = (of_char c :: nat) in 48 \<le> n \<and> n \<le> 57)"

text \<open>
  The value of the digits; \<open>seen\<close> says that the previous character was a digit, \<open>acc\<close>
  is the value and \<open>n\<close> the number of the digits read so far.
\<close>

fun digits :: "bool \<Rightarrow> nat \<Rightarrow> nat \<Rightarrow> string \<Rightarrow> nat option" where
  "digits seen acc n [] = (if seen \<and> n \<le> 4300 then Some acc else None)"
| "digits seen acc n (c # cs) =
     (if is_digit c then digits True (10 * acc + (of_char c - 48)) (n + 1) cs
      else if c = CHR ''_'' \<and> seen \<and> cs \<noteq> [] \<and> is_digit (hd cs) then digits False acc n cs
      else None)"

definition ascii_int :: "string \<Rightarrow> int option" where
  "ascii_int s =
     (case rev (dropWhile int_space (rev (dropWhile int_space s))) of
        [] \<Rightarrow> None
      | c # cs \<Rightarrow>
          if c = CHR ''-'' then map_option (\<lambda>n. - int n) (digits False 0 0 cs)
          else if c = CHR ''+'' then map_option int (digits False 0 0 cs)
          else map_option int (digits False 0 0 (c # cs)))"

text \<open>
  The scenario of the specification: drama 62452 has two episodes. Episode A (sound 1)
  is free, has 10 views, inline identifiers 1 and 2 (and a system entry of type 4 by
  user 9) and threaded identifiers 2 and 3 (user 3 replies to user 2). Episode B
  (sound 2) is paid, has 5 views, inline identifier 4 and no threaded comment.
  Every other URL does not answer.
\<close>

definition episode_A :: sound where
  "episode_A = \<lparr>s_sound_id = 1, s_sound_title = ''A'', s_need_pay = 0\<rparr>"

definition episode_B :: sound where
  "episode_B = \<lparr>s_sound_id = 2, s_sound_title = ''B'', s_need_pay = 1\<rparr>"

definition scenario :: world where
  "scenario =
     \<lparr>getdrama = (\<lambda>drama_id.
        if drama_id = ''62452'' then
          Body \<lparr>gd_info = Some
            \<lparr>di_drama = Some \<lparr>dj_name = Some ''N'', dj_price = Some 199,
                               dj_view_count = Some 1000, dj_catalog_name = Some ''C''\<rparr>,
             di_episodes = Some \<lparr>ej_episode = Some
               [\<lparr>ej_sound_id = Some 1, ej_soundstr = Some ''A'', ej_need_pay = None\<rparr>,
                \<lparr>ej_sound_id = Some 2, ej_soundstr = Some ''B'', ej_need_pay = Some 1\<rparr>]\<rparr>\<rparr>\<rparr>
        else NoResponse),
      getsound = (\<lambda>sound_id.
        if sound_id = 1 then Body (sound_page 10 200)
        else if sound_id = 2 then Body (sound_page 5 100)
        else NoResponse),
      getdm = (\<lambda>sound_id.
        if sound_id = 1 then
          Body [danmaku ''0,1,25,0,0,0,1'', danmaku ''3.5,4,25,0,0,0,9'', danmaku ''7,1,25,0,0,0,2'']
        else if sound_id = 2 then Body [danmaku ''0,1,25,0,0,0,4'']
        else NoResponse),
      getcomment = (\<lambda>query.
        if query = endpoint 1 1 then
          Body (comment_page
                  [\<lparr>cj_userid = Some 2, cj_subcomments = Some [\<lparr>sc_userid = Some 3\<rparr>]\<rparr>] False)
        else if query = endpoint 2 1 then Body (comment_page [] False)
        else NoResponse),
      fromtimestamp = Inr,
      int_str = ascii_int,
      str_strip = ascii_strip\<rparr>"

definition record_A :: sound_detail where
  "record_A =
     \<lparr>detail = Some \<lparr>view_count = Some 10, view_count_formatted = None, comment_count = None,
                      favorite_count = None, username = None, create_time = 200\<rparr>,
      sound_id = 1, sound_title = ''A'', need_pay = 0,
      danmaku_uids = {1, 2}, comment_uids = {2, 3}, total_sound_uids = {1, 2, 3}\<rparr>"

definition record_B :: sound_detail where
  "record_B =
     \<lparr>detail = Some \<lparr>view_count = Some 5, view_count_formatted = None, comment_count = None,
                      favorite_count = None, username = None, create_time = 100\<rparr>,
      sound_id = 2, sound_title = ''B'', need_pay = 1,
      danmaku_uids = {4}, comment_uids = {}, total_sound_uids = {4}\<rparr>"

definition no_rows :: writers where
  "no_rows = \<lparr>sound_writer = [], drama_writer = []\<rparr>"

text \<open>
  Sound 3 has three pages of threaded comments.
\<close>

definition paged_datas :: "nat \<Rightarrow> comment_json list" where
  "paged_datas k =
     (if k = 1 then [\<lparr>cj_userid = Some 11, cj_subcomments = Some [\<lparr>sc_userid = Some 12\<rparr>, \<lparr>sc_userid = Some 13\<rparr>]\<rparr>,
                     \<lparr>cj_userid = Some 12, cj_subcomments = Some []\<rparr>]
      else if k = 2 then [\<lparr>cj_userid = Some 21, cj_subcomments = Some [\<lparr>sc_userid = Some 11\<rparr>]\<rparr>]
      else [\<lparr>cj_userid = Some 31, cj_subcomments = Some []\<rparr>])"

definition paged :: world where
  "paged = scenario\<lparr>getcomment := (\<lambda>query.
      if q_e_id query = 3 \<and> 1 \<le> q_p query \<and> q_p query \<le> 3 \<and> q_pagesize query = 100
      then Body (comment_page (paged_datas (q_p query)) (q_p query \<le> 2))
      else NoResponse)\<rparr>"

text \<open>
  The scenario, but the second episode of the list has no \<^verbatim>\<open>sound_id\<close>.
\<close>

definition incomplete :: world where
  "incomplete = scenario\<lparr>getdrama := (\<lambda>drama_id.
      if drama_id = ''62452'' then
        Body \<lparr>gd_info = Some
          \<lparr>di_drama = Some \<lparr>dj_name = Some ''N'', dj_price = Some 199,
                             dj_view_count = Some 1000, dj_catalog_name = Some ''C''\<rparr>,
           di_episodes = Some \<lparr>ej_episode = Some
             [\<lparr>ej_sound_id = Some 1, ej_soundstr = Some ''A'', ej_need_pay = None\<rparr>,
              \<lparr>ej_sound_id = None, ej_soundstr = Some ''B'', ej_need_pay = Some 1\<rparr>]\<rparr>\<rparr>\<rparr>
      else NoResponse)\<rparr>"

text \<open>
  The scenario, but the first page of threaded comments of episode B is \<open>answer\<close>.
\<close>

definition with_comments :: "getcomment_json response \<Rightarrow> world" where
  "with_comments answer = scenario\<lparr>getcomment := (\<lambda>query.
      if query = endpoint 2 1 then answer else getcomment scenario query)\<rparr>"

text \<open>
  Pages that are well-formed JSON and lack a member: no \<^verbatim>\<open>Datas\<close>, a comment without
  \<^verbatim>\<open>subcomments\<close>, a comment without \<^verbatim>\<open>userid\<close>.
\<close>

definition without_Datas :: getcomment_json where
  "without_Datas = \<lparr>gc_info = Some \<lparr>ci_comment = Some \<lparr>cs_Datas = None, cs_hasMore = Some False\<rparr>\<rparr>\<rparr>"

definition without_subcomments :: getcomment_json where
  "without_subcomments = comment_page [\<lparr>cj_userid = Some 5, cj_subcomments = None\<rparr>] False"

definition without_userid :: getcomment_json where
  "without_userid = comment_page [\<lparr>cj_userid = None, cj_subcomments = Some []\<rparr>] False"

text \<open>
  The scenario, but the drama lists sound 1 twice, under two titles.
\<close>

definition twins :: world where
  "twins = scenario\<lparr>getdrama := (\<lambda>drama_id.
      if drama_id = ''62452'' then
        Body \<lparr>gd_info = Some
          \<lparr>di_drama = None,
           di_episodes = Some \<lparr>ej_episode = Some
             [\<lparr>ej_sound_id = Some 1, ej_soundstr = Some ''A'', ej_need_pay = None\<rparr>,
              \<lparr>ej_sound_id = Some 1, ej_soundstr = Some ''A2'', ej_need_pay = None\<rparr>]\<rparr>\<rparr>\<rparr>
      else NoResponse)\<rparr>"

text \<open>
  The scenario, but the inline-comment endpoint does not answer for episode B.
\<close>

definition without_inline :: world where
  "without_inline = scenario\<lparr>getdm := (\<lambda>sid. if sid = 2 then NoResponse else getdm scenario sid)\<rparr>"

definition record_B_without_inline :: sound_detail where
  "record_B_without_inline =
     \<lparr>detail = Some \<lparr>view_count = Some 5, view_count_formatted = None, comment_count = None,
                      favorite_count = None, username = None, create_time = 100\<rparr>,
      sound_id = 2, sound_title = ''B'', need_pay = 1,
      danmaku_uids = {}, comment_uids = {}, total_sound_uids = {}\<rparr>"

text \<open>
  The scenario, but the detail endpoint does not answer for episode B.
\<close>

definition without_detail :: world where
  "without_detail = scenario\<lparr>getsound := (\<lambda>sid. if sid = 2 then NoResponse else getsound scenario sid)\<rparr>"

text \<open>
  The scenario, but the detail payload of episode A has no \<^verbatim>\<open>create_time\<close>.
\<close>

definition undated :: world where
  "undated = scenario\<lparr>getsound := (\<lambda>sid.
      if sid = 1 then
        Body \<lparr>gs_info = Some \<lparr>si_sound = Some
          \<lparr>sj_view_count = Some 10, sj_view_count_formatted = None, sj_comment_count = None,
           sj_favorite_count = None, sj_username = None, sj_create_time = None\<rparr>\<rparr>\<rparr>
      else getsound scenario sid)\<rparr>"

definition record_A_undated :: sound_detail where
  "record_A_undated =
     \<lparr>detail = Some \<lparr>view_count = Some 10, view_count_formatted = None, comment_count = None,
                      favorite_count = None, username = None, create_time = 0\<rparr>,
      sound_id = 1, sound_title = ''A'', need_pay = 0,
      danmaku_uids = {1, 2}, comment_uids = {2, 3}, total_sound_uids = {1, 2, 3}\<rparr>"

section \<open>Comprehensions\<close>

lemma comprehension_map:
  "(\<And>x. x \<in> set xs \<Longrightarrow> f x = Inr (g x)) \<Longrightarrow> comprehension f xs = Inr (map g xs)"
  by (induction xs) simp_all

lemma comprehension_subscript:
  "\<forall>x \<in> set xs. f x \<noteq> None \<Longrightarrow>
   comprehension (\<lambda>x. subscript (f x)) xs = Inr (map (\<lambda>x. the (f x)) xs)"
  by (induction xs) (auto simp: subscript_def)

lemma comprehension_InrD:
  "comprehension f xs = Inr ys \<Longrightarrow> x \<in> set xs \<Longrightarrow> \<exists>y. f x = Inr y"
  by (induction xs arbitrary: ys) (auto split: sum.splits)

lemma comprehension_InlD:
  "comprehension f xs = Inl e \<Longrightarrow> \<exists>x \<in> set xs. f x = Inl e"
  by (induction xs) (auto split: sum.splits)

lemma set_map_filter_id:
  "set (List.map_filter id (map g xs)) = {y. \<exists>x \<in> set xs. g x = Some y}"
  by (induction xs) (auto simp: List.map_filter_simps split: option.splits)

lemma set_map_the:
  "\<forall>x \<in> set xs. f x \<noteq> None \<Longrightarrow> set (map (\<lambda>x. the (f x)) xs) = (\<Union>x \<in> set xs. set_option (f x))"
  by (induction xs) auto

lemma those_map_Some:
  "(\<And>x. x \<in> set xs \<Longrightarrow> f x = Some (g x)) \<Longrightarrow> those (map f xs) = Some (map g xs)"
  by (induction xs) simp_all

lemma those_map_None:
  "x \<in> set xs \<Longrightarrow> f x = None \<Longrightarrow> those (map f xs) = None"
  by (induction xs) (auto split: option.splits)

lemma those_map_SomeD:
  "those (map f xs) = Some ys \<Longrightarrow> ys = map (\<lambda>x. the (f x)) xs \<and> (\<forall>x \<in> set xs. f x \<noteq> None)"
  by (induction xs arbitrary: ys) (auto split: option.splits)

lemma zip_map_same: "zip xs (map f xs) = map (\<lambda>x. (x, f x)) xs"
  by (induction xs) simp_all

section \<open>The identifier sets are finite\<close>

lemma finite_extract_user_ids: "extract_user_ids data = Inr S \<Longrightarrow> finite S"
  by (auto simp: extract_user_ids_def split: sum.splits)

lemma finite_comment_pages_aux:
  assumes "comment_pages w sid p acc sent = Some y"
  shows "finite acc \<longrightarrow> (\<forall>tr S. y = (tr, Inr S) \<longrightarrow> finite S)"
proof (rule comment_pages.raw_induct
    [where P = "\<lambda>w sid p acc sent y. finite acc \<longrightarrow> (\<forall>tr S. y = (tr, Inr S) \<longrightarrow> finite S)", OF _ assms])
  fix rc w sid p acc sent y
  assume IH: "\<And>w sid p acc sent y. rc w sid p acc sent = Some y \<Longrightarrow>
                finite acc \<longrightarrow> (\<forall>tr S. y = (tr, Inr S) \<longrightarrow> finite S)"
    and body: "(case http_json (getcomment w (endpoint sid p)) of
      Inl e \<Rightarrow> Some (sent @ [endpoint sid p], Inl e)
      | Inr data \<Rightarrow>
          case extract_user_ids data of
          Inl e \<Rightarrow> Some (sent @ [endpoint sid p], Inl e)
          | Inr uids \<Rightarrow>
              case info_comment_hasMore data of
              Inl e \<Rightarrow> Some (sent @ [endpoint sid p], Inl e)
              | Inr has_more \<Rightarrow>
                  if \<not> has_more
                  then Some (sent @ [endpoint sid p], Inr (acc \<union> uids))
                  else rc w sid (p + 1) (acc \<union> uids) (sent @ [endpoint sid p])) = Some y"
  show "finite acc \<longrightarrow> (\<forall>tr S. y = (tr, Inr S) \<longrightarrow> finite S)"
  proof (intro impI allI)
    fix tr S assume fin: "finite acc" and y: "y = (tr, Inr S)"
    from body y show "finite S"
    proof (cases "http_json (getcomment w (endpoint sid p))")
      case (Inr data)
      note data = this
      show ?thesis
      proof (cases "extract_user_ids data")
        case (Inr uids)
        note uids = this
        then have fu: "finite uids" by (rule finite_extract_user_ids)
        show ?thesis
        proof (cases "info_comment_hasMore data")
          case (Inr m)
          show ?thesis
          proof (cases m)
            case True
            with body data uids Inr have "rc w sid (p + 1) (acc \<union> uids) (sent @ [endpoint sid p]) = Some y"
              by simp
            from IH [OF this] fin fu y show ?thesis by simp
          next
            case False
            with body data uids Inr y fin fu show ?thesis by auto
          qed
        next
          case (Inl e)
          with body data uids y show ?thesis by simp
        qed
      next
        case (Inl e)
        with body data y show ?thesis by simp
      qed
    next
      case (Inl e)
      with body y show ?thesis by simp
    qed
  qed
qed

lemma finite_comment_pages:
  "comment_pages w sid p acc sent = Some (tr, Inr S) \<Longrightarrow> finite acc \<Longrightarrow> finite S"
  using finite_comment_pages_aux by blast

lemma finite_fetch_all_uids_by_comments:
  "fetch_all_uids_by_comments w sid = Some (Inr S) \<Longrightarrow> finite S"
  by (auto simp: fetch_all_uids_by_comments_def fetch_all_uids_by_comments_trace_def
      dest: finite_comment_pages)

lemma finite_fetch_all_danmakus: "fetch_all_danmakus w sid = Inr S \<Longrightarrow> finite S"
  by (auto simp: fetch_all_danmakus_def except_RequestException_ParseError_def
      split: sum.splits if_splits)

section \<open>The episode record\<close>

lemma process_sound_fields:
  assumes "process_sound w s = Some (Inr sd)"
  shows "sound_id sd = s_sound_id s" "sound_title sd = s_sound_title s" "need_pay sd = s_need_pay s"
    "total_sound_uids sd = danmaku_uids sd \<union> comment_uids sd"
    "fetch_all_danmakus w (s_sound_id s) = Inr (danmaku_uids sd)"
    "fetch_all_uids_by_comments w (s_sound_id s) = Some (Inr (comment_uids sd))"
    "get_sound_detail w (s_sound_id s) = Inr (detail sd)"
  using assms by (auto simp: process_sound_def split: sum.splits option.splits)

lemma process_sound_parts:
  assumes "get_sound_detail w (s_sound_id s) = Inr d"
    and "fetch_all_danmakus w (s_sound_id s) = Inr dm"
    and "fetch_all_uids_by_comments w (s_sound_id s) = Some (Inr cm)"
  shows "process_sound w s =
           Some (Inr \<lparr>detail = d, sound_id = s_sound_id s, sound_title = s_sound_title s,
                      need_pay = s_need_pay s, danmaku_uids = dm, comment_uids = cm,
                      total_sound_uids = dm \<union> cm\<rparr>)"
  using assms by (simp add: process_sound_def)

lemma process_sound_comment_error:
  assumes "fetch_all_uids_by_comments w (s_sound_id s) = Some (Inl e)"
  shows "\<exists>e'. process_sound w s = Some (Inl e')"
  using assms by (auto simp: process_sound_def split: sum.splits)

subsection \<open>C2: the combined set\<close>

text \<open>
  C2. In every episode record that \<^verbatim>\<open>process_sound\<close> returns, the combined identifier set
  is the union of the inline (danmaku) set and the threaded (comment) set. Hence its
  size is the size of that union, at least the larger of the two sizes and at most
  their sum.
\<close>

theorem process_sound_union:
  assumes "process_sound w sound = Some (Inr sd)"
  shows "total_sound_uids sd = danmaku_uids sd \<union> comment_uids sd
       \<and> card (total_sound_uids sd) = card (danmaku_uids sd \<union> comment_uids sd)
       \<and> max (card (danmaku_uids sd)) (card (comment_uids sd)) \<le> card (total_sound_uids sd)
       \<and> card (total_sound_uids sd) \<le> card (danmaku_uids sd) + card (comment_uids sd)"
proof -
  from assms obtain d dm cm where
    dm: "fetch_all_danmakus w (s_sound_id sound) = Inr dm" and
    cm: "fetch_all_uids_by_comments w (s_sound_id sound) = Some (Inr cm)" and
    sd: "sd = \<lparr>detail = d, sound_id = s_sound_id sound, sound_title = s_sound_title sound,
               need_pay = s_need_pay sound, danmaku_uids = dm, comment_uids = cm,
               total_sound_uids = dm \<union> cm\<rparr>"
    by (auto simp: process_sound_def split: sum.splits option.splits)
  have fin: "finite dm" "finite cm"
    using dm cm by (auto dest: finite_fetch_all_danmakus finite_fetch_all_uids_by_comments)
  have "card dm \<le> card (dm \<union> cm)" "card cm \<le> card (dm \<union> cm)"
    using fin by (auto intro: card_mono)
  moreover have "card (dm \<union> cm) \<le> card dm + card cm"
    by (rule card_Un_le)
  ultimately show ?thesis
    by (simp add: sd)
qed

theorem process_sound_union_witness:
  "process_sound scenario episode_A = Some (Inr record_A)
   \<and> total_sound_uids record_A = danmaku_uids record_A \<union> comment_uids record_A
   \<and> card (total_sound_uids record_A) = card (danmaku_uids record_A \<union> comment_uids record_A)
   \<and> max (card (danmaku_uids record_A)) (card (comment_uids record_A))
        \<le> card (total_sound_uids record_A)
   \<and> card (total_sound_uids record_A)
        \<le> card (danmaku_uids record_A) + card (comment_uids record_A)"
proof -
  have h: "process_sound scenario episode_A = Some (Inr record_A)"
    by code_simp
  show ?thesis
    using h process_sound_union [OF h] by simp
qed

section \<open>Threaded comments\<close>

lemma subcomment_uids_complete:
  assumes "complete_comment c"
  shows "\<exists>ids. subcomment_uids c = Inr ids \<and>
           insert (the (cj_userid c)) (set ids) = comment_userids c"
proof -
  from assms obtain subs u where subs: "cj_subcomments c = Some subs" and u: "cj_userid c = Some u"
    and all: "\<forall>sub \<in> set subs. sc_userid sub \<noteq> None"
    by (auto simp: complete_comment_def get_default_def)
  have "subcomment_uids c = Inr (map (\<lambda>s. the (sc_userid s)) subs)"
    using comprehension_subscript [OF all] by (simp add: subcomment_uids_def subs subscript_def)
  moreover have "insert (the (cj_userid c)) (set (map (\<lambda>s. the (sc_userid s)) subs)) = comment_userids c"
    unfolding set_map_the [OF all] by (simp add: comment_userids_def subs u get_default_def)
  ultimately show ?thesis by blast
qed

lemma comprehension_subcomment_uids:
  "\<forall>c \<in> set datas. complete_comment c \<Longrightarrow>
   \<exists>idss. comprehension subcomment_uids datas = Inr idss \<and>
      set (map (\<lambda>c. the (cj_userid c)) datas) \<union> set (concat idss) = (\<Union>c \<in> set datas. comment_userids c)"
proof (induction datas)
  case Nil
  then show ?case by simp
next
  case (Cons c datas)
  then obtain idss where i: "comprehension subcomment_uids datas = Inr idss"
    and s: "set (map (\<lambda>c. the (cj_userid c)) datas) \<union> set (concat idss) = (\<Union>c \<in> set datas. comment_userids c)"
    by auto
  from Cons.prems obtain ids where c: "subcomment_uids c = Inr ids"
    and cs: "insert (the (cj_userid c)) (set ids) = comment_userids c"
    using subcomment_uids_complete [of c] by auto
  have "comprehension subcomment_uids (c # datas) = Inr (ids # idss)"
    by (simp add: c i)
  moreover have "set (map (\<lambda>c. the (cj_userid c)) (c # datas)) \<union> set (concat (ids # idss))
      = (\<Union>c \<in> set (c # datas). comment_userids c)"
    using s cs by auto
  ultimately show ?case by blast
qed

lemma extract_user_ids_page:
  assumes "\<forall>c \<in> set datas. complete_comment c"
  shows "extract_user_ids (comment_page datas m) = Inr (\<Union>c \<in> set datas. comment_userids c)"
proof -
  have Datas: "info_comment_Datas (comment_page datas m) = Inr datas"
    by (simp add: info_comment_Datas_def info_comment_def comment_page_def subscript_def)
  have "\<forall>c \<in> set datas. cj_userid c \<noteq> None"
    using assms by (simp add: complete_comment_def)
  then have top: "comprehension (\<lambda>comment. subscript (cj_userid comment)) datas
               = Inr (map (\<lambda>c. the (cj_userid c)) datas)"
    by (rule comprehension_subscript)
  from comprehension_subcomment_uids [OF assms] obtain idss where
    i: "comprehension subcomment_uids datas = Inr idss"
    and s: "set (map (\<lambda>c. the (cj_userid c)) datas) \<union> set (concat idss) = (\<Union>c \<in> set datas. comment_userids c)"
    by blast
  show ?thesis
    using s by (simp add: extract_user_ids_def Datas top i)
qed

lemma hasMore_page: "info_comment_hasMore (comment_page datas m) = Inr m"
  by (simp add: info_comment_hasMore_def info_comment_def comment_page_def subscript_def)

lemma comment_pages_upto:
  assumes pages: "\<And>k. 1 \<le> k \<Longrightarrow> k \<le> N + 1 \<Longrightarrow>
             getcomment w (endpoint sid k) = Body (comment_page (datas k) (k \<le> N))
             \<and> (\<forall>c \<in> set (datas k). complete_comment c)"
    and "1 \<le> p" "p \<le> N + 1"
  shows "comment_pages w sid p acc sent =
           Some (sent @ map (endpoint sid) [p..<N + 2],
                 Inr (acc \<union> (\<Union>k \<in> {p..N + 1}. \<Union>c \<in> set (datas k). comment_userids c)))"
  using assms(2,3)
proof (induction "N + 1 - p" arbitrary: p acc sent)
  case 0
  then have p: "p = N + 1" by simp
  from pages [of p] p have
    body: "getcomment w (endpoint sid p) = Body (comment_page (datas p) False)"
    and c: "\<forall>c \<in> set (datas p). complete_comment c"
    by auto
  have step: "comment_pages w sid p acc sent =
      Some (sent @ [endpoint sid p], Inr (acc \<union> (\<Union>c \<in> set (datas p). comment_userids c)))"
    by (subst comment_pages.simps) (simp add: body extract_user_ids_page [OF c] hasMore_page)
  have l: "[p..<N + 2] = [p]" using p by simp
  have s: "{p..N + 1} = {p}" using p by simp
  show ?case
    by (simp only: step l s) simp
next
  case (Suc n)
  then have p: "p \<le> N" "1 \<le> p" by simp_all
  from pages [of p] p have
    body: "getcomment w (endpoint sid p) = Body (comment_page (datas p) True)"
    and c: "\<forall>c \<in> set (datas p). complete_comment c"
    by auto
  have IH: "comment_pages w sid (p + 1) acc' sent' =
           Some (sent' @ map (endpoint sid) [p + 1..<N + 2],
                 Inr (acc' \<union> (\<Union>k \<in> {p + 1..N + 1}. \<Union>c \<in> set (datas k). comment_userids c)))"
    for acc' sent'
    using Suc.hyps(1) [of "p + 1" acc' sent'] Suc.hyps(2) p by simp
  have l: "[p..<N + 2] = p # [p + 1..<N + 2]" using p by (simp add: upt_conv_Cons)
  have s: "{p..N + 1} = insert p {p + 1..N + 1}" using p by auto
  have step: "comment_pages w sid p acc sent =
      comment_pages w sid (p + 1) (acc \<union> (\<Union>c \<in> set (datas p). comment_userids c))
        (sent @ [endpoint sid p])"
    by (subst comment_pages.simps) (simp add: body extract_user_ids_page [OF c] hasMore_page)
  have e1: "sent @ map (endpoint sid) [p..<N + 2] =
      (sent @ [endpoint sid p]) @ map (endpoint sid) [p + 1..<N + 2]"
    by (subst l) simp
  have e2: "acc \<union> (\<Union>k \<in> {p..N + 1}. \<Union>c \<in> set (datas k). comment_userids c) =
      (acc \<union> (\<Union>c \<in> set (datas p). comment_userids c))
        \<union> (\<Union>k \<in> {p + 1..N + 1}. \<Union>c \<in> set (datas k). comment_userids c)"
    by (subst s) auto
  show ?case
    by (simp only: step IH e1 e2)
qed

lemma fetch_all_uids_by_comments_transport:
  assumes "getcomment w (endpoint sid 1) = NoResponse"
  shows "fetch_all_uids_by_comments w sid = Some (Inl ConnectionError)"
proof -
  have "comment_pages w sid 1 {} [] = Some ([endpoint sid 1], Inl ConnectionError)"
    by (subst comment_pages.simps) (simp only: assms http_json.simps sum.case append_Nil)
  then show ?thesis
    by (simp add: fetch_all_uids_by_comments_def fetch_all_uids_by_comments_trace_def)
qed

subsection \<open>C4: pagination\<close>

text \<open>
  C4. Let the threaded-comment endpoint answer the pages 1 to \<open>N + 1\<close> of an episode, each
  page with its \<^verbatim>\<open>Datas\<close> and \<^verbatim>\<open>hasMore\<close>, every comment with its \<^verbatim>\<open>userid\<close> and
  \<^verbatim>\<open>subcomments\<close> and every reply with its \<^verbatim>\<open>userid\<close>, and let \<^verbatim>\<open>hasMore\<close> be true on the
  first \<open>N\<close> pages and false on page \<open>N + 1\<close>. Then \<^verbatim>\<open>fetch_all_uids_by_comments\<close> issues
  exactly the \<open>N + 1\<close> requests for the pages 1, ..., \<open>N + 1\<close>, in this order and each
  with page size 100, and returns the union over these pages of the \<^verbatim>\<open>userid\<close> of every
  comment and of every reply.
\<close>

theorem pagination_requests:
  assumes "\<And>k. 1 \<le> k \<Longrightarrow> k \<le> N + 1 \<Longrightarrow>
             getcomment w (endpoint sid k) = Body (comment_page (datas k) (k \<le> N))
             \<and> (\<forall>c \<in> set (datas k). complete_comment c)"
  shows "fetch_all_uids_by_comments_trace w sid =
           Some (map (\<lambda>k. \<lparr>q_e_id = sid, q_p = k, q_pagesize = 100\<rparr>) [1..<N + 2],
                 Inr (\<Union>k \<in> {1..N + 1}. \<Union>c \<in> set (datas k). comment_userids c))
       \<and> length (map (\<lambda>k. \<lparr>q_e_id = sid, q_p = k, q_pagesize = 100\<rparr>) [1..<N + 2]) = N + 1
       \<and> fetch_all_uids_by_comments w sid =
           Some (Inr (\<Union>k \<in> {1..N + 1}. \<Union>c \<in> set (datas k). comment_userids c))"
proof -
  have e: "endpoint sid = (\<lambda>k. \<lparr>q_e_id = sid, q_p = k, q_pagesize = 100\<rparr>)"
    by (rule ext) (simp add: endpoint_def)
  have "comment_pages w sid 1 {} [] =
      Some ([] @ map (endpoint sid) [1..<N + 2],
            Inr ({} \<union> (\<Union>k \<in> {1..N + 1}. \<Union>c \<in> set (datas k). comment_userids c)))"
    by (rule comment_pages_upto [OF assms]) simp_all
  then show ?thesis
    by (simp add: fetch_all_uids_by_comments_def fetch_all_uids_by_comments_trace_def e)
qed

theorem pagination_requests_witness:
  "fetch_all_uids_by_comments_trace paged 3 =
     Some ([\<lparr>q_e_id = 3, q_p = 1, q_pagesize = 100\<rparr>, \<lparr>q_e_id = 3, q_p = 2, q_pagesize = 100\<rparr>,
            \<lparr>q_e_id = 3, q_p = 3, q_pagesize = 100\<rparr>],
           Inr {11, 12, 13, 21, 31})
   \<and> fetch_all_uids_by_comments paged 3 =
       Some (Inr (\<Union>k \<in> {1..2 + 1}. \<Union>c \<in> set (paged_datas k). comment_userids c))"
proof -
  have pages: "getcomment paged (endpoint 3 k) = Body (comment_page (paged_datas k) (k \<le> 2))
             \<and> (\<forall>c \<in> set (paged_datas k). complete_comment c)"
    if "1 \<le> k" "k \<le> 2 + 1" for k
    using that by (simp add: paged_def endpoint_def paged_datas_def complete_comment_def get_default_def)
  have r: "fetch_all_uids_by_comments_trace paged 3 =
     Some ([\<lparr>q_e_id = 3, q_p = 1, q_pagesize = 100\<rparr>, \<lparr>q_e_id = 3, q_p = 2, q_pagesize = 100\<rparr>,
            \<lparr>q_e_id = 3, q_p = 3, q_pagesize = 100\<rparr>],
           Inr {11, 12, 13, 21, 31})"
    by code_simp
  from pagination_requests [of 2 paged 3 paged_datas, OF pages] r show ?thesis
    by blast
qed

subsection \<open>C10: a page that lacks a member\<close>

text \<open>
  C10. There are pages of threaded comments that are well-formed JSON and lack a member
  the program subscripts (no \<^verbatim>\<open>Datas\<close>, a comment without \<^verbatim>\<open>subcomments\<close>, a comment
  without \<^verbatim>\<open>userid\<close>) on which \<^verbatim>\<open>fetch_all_uids_by_comments\<close> raises \<^verbatim>\<open>KeyError\<close>. Nothing
  catches it: \<^verbatim>\<open>process_sound\<close> raises it, and \<^verbatim>\<open>process_drama_id\<close> raises it at the join of
  the futures, in whichever order they complete, and writes no row, neither for that
  episode nor for the other episode of the drama nor for the drama. A transport failure
  of the same request ends \<^verbatim>\<open>process_drama_id\<close> in the same way.
\<close>

theorem comment_key_error:
  "fetch_all_uids_by_comments (with_comments (Body without_Datas)) 2 = Some (Inl KeyError)
   \<and> process_sound (with_comments (Body without_Datas)) episode_B = Some (Inl KeyError)
   \<and> process_drama_id (with_comments (Body without_Datas)) id ''62452'' no_rows
        = Some (no_rows, Inl KeyError)
   \<and> process_drama_id (with_comments (Body without_Datas)) rev ''62452'' no_rows
        = Some (no_rows, Inl KeyError)
   \<and> fetch_all_uids_by_comments (with_comments (Body without_subcomments)) 2 = Some (Inl KeyError)
   \<and> process_sound (with_comments (Body without_subcomments)) episode_B = Some (Inl KeyError)
   \<and> process_drama_id (with_comments (Body without_subcomments)) id ''62452'' no_rows
        = Some (no_rows, Inl KeyError)
   \<and> process_drama_id (with_comments (Body without_subcomments)) rev ''62452'' no_rows
        = Some (no_rows, Inl KeyError)
   \<and> fetch_all_uids_by_comments (with_comments (Body without_userid)) 2 = Some (Inl KeyError)
   \<and> process_sound (with_comments (Body without_userid)) episode_B = Some (Inl KeyError)
   \<and> process_drama_id (with_comments (Body without_userid)) id ''62452'' no_rows
        = Some (no_rows, Inl KeyError)
   \<and> process_drama_id (with_comments (Body without_userid)) rev ''62452'' no_rows
        = Some (no_rows, Inl KeyError)
   \<and> process_drama_id (with_comments NoResponse) id ''62452'' no_rows
        = Some (no_rows, Inl ConnectionError)"
  by code_simp

section \<open>Inline comments\<close>

lemma danmaku_uid_p_field:
  assumes "p_field item 1 = Some kind"
    and "kind \<noteq> ''4'' \<Longrightarrow> p_field item 6 = Some field \<and> py_int w field = Inr uid"
  shows "danmaku_uid w item = Inr (if kind \<noteq> ''4'' then Some uid else None)"
  using assms
  by (auto simp: danmaku_uid_def p_field_def subscript_def index_def
      split: option.splits if_splits)

lemma danmaku_filter_wf:
  assumes body: "getdm w sid = Body children"
    and wf: "\<And>item. item \<in> set (findall ''d'' children) \<Longrightarrow>
               \<exists>kind. p_field item 1 = Some kind \<and>
                 (kind \<noteq> ''4'' \<longrightarrow> (\<exists>field uid. p_field item 6 = Some field \<and> py_int w field = Inr uid))"
  shows "fetch_all_danmakus w sid =
           Inr {uid. \<exists>item \<in> set (findall ''d'' children). \<exists>kind field.
                  p_field item 1 = Some kind \<and> kind \<noteq> ''4'' \<and>
                  p_field item 6 = Some field \<and> py_int w field = Inr uid}"
proof -
  define g where "g item = (case danmaku_uid w item of Inr v \<Rightarrow> v | Inl e \<Rightarrow> None)" for item
  have each: "danmaku_uid w item = Inr (g item)
      \<and> (\<forall>uid. g item = Some uid \<longleftrightarrow> (\<exists>kind field. p_field item 1 = Some kind \<and> kind \<noteq> ''4'' \<and>
                  p_field item 6 = Some field \<and> py_int w field = Inr uid))"
    if "item \<in> set (findall ''d'' children)" for item
  proof -
    from wf [OF that] obtain kind where k: "p_field item 1 = Some kind"
      and rest: "kind \<noteq> ''4'' \<longrightarrow> (\<exists>field uid. p_field item 6 = Some field \<and> py_int w field = Inr uid)"
      by blast
    show ?thesis
    proof (cases "kind = ''4''")
      case True
      with k have "danmaku_uid w item = Inr None"
        using danmaku_uid_p_field [where item = item and kind = kind and w = w] by simp
      with k True show ?thesis by (simp add: g_def)
    next
      case False
      with rest obtain field uid where f: "p_field item 6 = Some field" "py_int w field = Inr uid"
        by blast
      with k False have "danmaku_uid w item = Inr (Some uid)"
        using danmaku_uid_p_field [where item = item and kind = kind and field = field and uid = uid and w = w] by simp
      with k f False show ?thesis by (auto simp: g_def)
    qed
  qed
  have "comprehension (danmaku_uid w) (findall ''d'' children) = Inr (map g (findall ''d'' children))"
    by (rule comprehension_map) (simp add: each)
  then have "fetch_all_danmakus w sid =
      Inr (set (List.map_filter id (map g (findall ''d'' children))))"
    by (simp add: fetch_all_danmakus_def body except_RequestException_ParseError_def)
  moreover have "set (List.map_filter id (map g (findall ''d'' children))) =
      {uid. \<exists>item \<in> set (findall ''d'' children). g item = Some uid}"
    by (rule set_map_filter_id)
  ultimately show ?thesis
    using each by auto
qed

lemma py_int_InlD: "py_int w s = Inl e \<Longrightarrow> e = ValueError"
  by (auto simp: py_int_def split: option.splits)

lemma danmaku_uid_InrD:
  assumes "danmaku_uid w item = Inr v"
  shows "\<exists>kind. p_field item 1 = Some kind \<and>
           (kind \<noteq> ''4'' \<longrightarrow> (\<exists>field uid. p_field item 6 = Some field \<and> py_int w field = Inr uid))"
  using assms
  by (auto simp: danmaku_uid_def p_field_def subscript_def index_def
      split: option.splits if_splits sum.splits)

lemma danmaku_uid_InlD:
  "danmaku_uid w item = Inl e \<Longrightarrow> e = KeyError \<or> e = IndexError \<or> e = ValueError"
  by (auto simp: danmaku_uid_def subscript_def index_def
      split: option.splits if_splits sum.splits dest: py_int_InlD)

lemma fetch_all_danmakus_InrD:
  assumes body: "getdm w sid = Body children"
    and ret: "fetch_all_danmakus w sid = Inr S"
    and item: "item \<in> set (findall ''d'' children)"
  shows "\<exists>kind. p_field item 1 = Some kind \<and>
           (kind \<noteq> ''4'' \<longrightarrow> (\<exists>field uid. p_field item 6 = Some field \<and> py_int w field = Inr uid))"
proof -
  have "\<not> (is_RequestException e \<or> e = ParseError)"
    if "comprehension (danmaku_uid w) (findall ''d'' children) = Inl e" for e
    using comprehension_InlD [OF that] by (auto dest: danmaku_uid_InlD)
  with ret body obtain uids where "comprehension (danmaku_uid w) (findall ''d'' children) = Inr uids"
    by (auto simp: fetch_all_danmakus_def except_RequestException_ParseError_def
        split: sum.splits if_splits)
  from comprehension_InrD [OF this item] obtain v where "danmaku_uid w item = Inr v"
    by blast
  then show ?thesis by (rule danmaku_uid_InrD)
qed

lemma fetch_all_danmakus_failure:
  assumes "getdm w sid = NoResponse \<or> getdm w sid = BadStatus \<or> getdm w sid = Undecodable"
  shows "fetch_all_danmakus w sid = Inr {}"
  using assms by (auto simp: fetch_all_danmakus_def except_RequestException_ParseError_def)

subsection \<open>C5: the filter\<close>

text \<open>
  C5. On an XML payload, \<^verbatim>\<open>fetch_all_danmakus\<close> returns a set exactly when every \<^verbatim>\<open><d>\<close>
  entry has a \<^verbatim>\<open>p\<close> attribute with a field at index 1 (the type discriminant) and, unless
  that field is \<^verbatim>\<open>"4"\<close>, a field at index 6 that \<^verbatim>\<open>int\<close> accepts (the identifier). The set it
  returns is then the set of the identifiers of the entries whose discriminant is not
  \<^verbatim>\<open>"4"\<close>: each of them is included, and an entry with discriminant \<^verbatim>\<open>"4"\<close> contributes
  nothing.
\<close>

theorem danmaku_filter:
  assumes body: "getdm w sid = Body children"
  shows "fetch_all_danmakus w sid = Inr S \<longleftrightarrow>
     (\<forall>item \<in> set (findall ''d'' children).
        \<exists>kind. p_field item 1 = Some kind \<and>
          (kind \<noteq> ''4'' \<longrightarrow> (\<exists>field uid. p_field item 6 = Some field \<and> py_int w field = Inr uid)))
     \<and> S = {uid. \<exists>item \<in> set (findall ''d'' children). \<exists>kind field.
                  p_field item 1 = Some kind \<and> kind \<noteq> ''4'' \<and>
                  p_field item 6 = Some field \<and> py_int w field = Inr uid}"
proof
  assume ret: "fetch_all_danmakus w sid = Inr S"
  have wf: "\<forall>item \<in> set (findall ''d'' children).
        \<exists>kind. p_field item 1 = Some kind \<and>
          (kind \<noteq> ''4'' \<longrightarrow> (\<exists>field uid. p_field item 6 = Some field \<and> py_int w field = Inr uid))"
    using fetch_all_danmakus_InrD [OF body ret] by blast
  with danmaku_filter_wf [OF body] ret show "(\<forall>item \<in> set (findall ''d'' children).
        \<exists>kind. p_field item 1 = Some kind \<and>
          (kind \<noteq> ''4'' \<longrightarrow> (\<exists>field uid. p_field item 6 = Some field \<and> py_int w field = Inr uid)))
     \<and> S = {uid. \<exists>item \<in> set (findall ''d'' children). \<exists>kind field.
                  p_field item 1 = Some kind \<and> kind \<noteq> ''4'' \<and>
                  p_field item 6 = Some field \<and> py_int w field = Inr uid}"
    by simp
next
  assume "(\<forall>item \<in> set (findall ''d'' children).
        \<exists>kind. p_field item 1 = Some kind \<and>
          (kind \<noteq> ''4'' \<longrightarrow> (\<exists>field uid. p_field item 6 = Some field \<and> py_int w field = Inr uid)))
     \<and> S = {uid. \<exists>item \<in> set (findall ''d'' children). \<exists>kind field.
                  p_field item 1 = Some kind \<and> kind \<noteq> ''4'' \<and>
                  p_field item 6 = Some field \<and> py_int w field = Inr uid}"
  with danmaku_filter_wf [OF body] show "fetch_all_danmakus w sid = Inr S"
    by simp
qed

theorem danmaku_filter_witness:
  "getdm scenario 1 =
     Body [danmaku ''0,1,25,0,0,0,1'', danmaku ''3.5,4,25,0,0,0,9'', danmaku ''7,1,25,0,0,0,2'']
   \<and> fetch_all_danmakus scenario 1 = Inr {1, 2}
   \<and> {1, 2} = {uid. \<exists>item \<in> set (findall ''d''
                  [danmaku ''0,1,25,0,0,0,1'', danmaku ''3.5,4,25,0,0,0,9'',
                   danmaku ''7,1,25,0,0,0,2'']).
                \<exists>kind field. p_field item 1 = Some kind \<and> kind \<noteq> ''4'' \<and>
                  p_field item 6 = Some field \<and> py_int scenario field = Inr uid}"
proof -
  have body: "getdm scenario 1 =
     Body [danmaku ''0,1,25,0,0,0,1'', danmaku ''3.5,4,25,0,0,0,9'', danmaku ''7,1,25,0,0,0,2'']"
    by (simp add: scenario_def)
  have r: "fetch_all_danmakus scenario 1 = Inr {1, 2}"
    by code_simp
  from danmaku_filter [OF body, of "{1, 2}"] r body show ?thesis
    by blast
qed

section \<open>The loop over the completed futures\<close>

lemma complete_record_lookups:
  assumes "complete_record sd"
  shows "lookup_create_time sd = Inr (created sd)" "int_view_count sd = Inr (views_of sd)"
  using assms
  by (auto simp: complete_record_def lookup_create_time_def created_def int_view_count_def views_of_def)

lemma int_view_count_complete: "int_view_count sd = Inr v \<Longrightarrow> complete_record sd"
  by (auto simp: complete_record_def int_view_count_def split: option.splits)

lemma earliest_complete:
  assumes "complete_record sd"
  shows "earliest st sd = Inr (st\<lparr>first_sound_create_time := earliest_of (first_sound_create_time st) [sd]\<rparr>)"
proof (cases "first_sound_create_time st")
  case None
  then show ?thesis
    by (simp add: earliest_def complete_record_lookups [OF assms] earliest_of_def)
next
  case (Some t)
  have "st\<lparr>first_sound_create_time := Some t\<rparr> = st"
    using Some by simp
  then show ?thesis
    using Some
    by (auto simp: earliest_def complete_record_lookups [OF assms] earliest_of_def min_def)
qed

lemma earliest_of_Cons:
  "earliest_of (earliest_of first [sd]) sds = earliest_of first (sd # sds)"
proof (cases "sds = []")
  case True
  then show ?thesis by (simp add: earliest_of_def)
next
  case False
  have fin: "finite (created ` set sds)" by simp
  from False have ne: "created ` set sds \<noteq> {}" by simp
  show ?thesis
  proof (cases first)
    case None
    then show ?thesis
      using False by (simp add: earliest_of_def)
  next
    case (Some t)
    have "Min (insert (Min {t, created sd}) (created ` set sds)) = Min (insert t (insert (created sd) (created ` set sds)))"
      using fin ne by (simp add: min.assoc)
    then show ?thesis
      using False Some by (simp add: earliest_of_def insert_commute)
  qed
qed

lemma accumulate_complete:
  assumes "complete_record sd" "need_pay sd = s_need_pay s"
  shows "accumulate st s sd =
     Inr (summary st [sd]\<lparr>first_sound_create_time := first_sound_create_time st\<rparr>)"
  using assms(2)
  by (simp add: accumulate_def len_keys_def complete_record_lookups [OF assms(1)] summary_def
      paid_def free_def split: option.splits)

lemma completed_complete:
  assumes "complete_record sd" "need_pay sd = s_need_pay s"
  shows "completed st s (Inr sd) = Inr (summary st [sd])"
  by (simp add: completed_def earliest_complete [OF assms(1)] accumulate_complete [OF assms]
      summary_def)

lemma summary_Cons: "summary (summary st [sd]) sds = summary st (sd # sds)"
  by (simp add: summary_def earliest_of_Cons Un_assoc)

lemma summary_Nil: "summary st [] = st"
  by (simp add: summary_def earliest_of_def)

lemma as_completed_complete:
  assumes "\<And>s. s \<in> set ss \<Longrightarrow> complete_record (r s) \<and> need_pay (r s) = s_need_pay s"
  shows "as_completed st (map (\<lambda>s. (s, Inr (r s))) ss) = Inr (summary st (map r ss))"
  using assms
proof (induction ss arbitrary: st)
  case Nil
  then show ?case by (simp add: summary_Nil)
next
  case (Cons s ss)
  then have "completed st s (Inr (r s)) = Inr (summary st [r s])"
    by (simp add: completed_complete)
  moreover have "as_completed (summary st [r s]) (map (\<lambda>s. (s, Inr (r s))) ss)
      = Inr (summary (summary st [r s]) (map r ss))"
    using Cons by simp
  ultimately show ?case
    by (simp add: summary_Cons)
qed

lemma completed_InrD:
  "completed st s result = Inr st1 \<Longrightarrow> \<exists>sd. result = Inr sd \<and> complete_record sd"
  by (auto simp: completed_def accumulate_def len_keys_def
      split: sum.splits option.splits if_splits dest: int_view_count_complete)

lemma as_completed_InrD:
  "as_completed st futures = Inr st1 \<Longrightarrow> (s, result) \<in> set futures \<Longrightarrow>
   \<exists>sd. result = Inr sd \<and> complete_record sd"
proof (induction futures arbitrary: st)
  case Nil
  then show ?case by simp
next
  case (Cons f futures)
  obtain s' r' where f: "f = (s', r')" by (cases f)
  from Cons.prems(1) f obtain st2 where c: "completed st s' r' = Inr st2"
    and rest: "as_completed st2 futures = Inr st1"
    by (auto split: sum.splits)
  from Cons.prems(2) f consider "(s, result) = (s', r')" | "(s, result) \<in> set futures"
    by auto
  then show ?case
  proof cases
    case 1
    with c show ?thesis by (auto dest: completed_InrD)
  next
    case 2
    with rest show ?thesis by (rule Cons.IH)
  qed
qed

lemma executor_complete:
  assumes "\<And>s. s \<in> set (order sl) \<Longrightarrow> process_sound w s = Some (Inr (r s)) \<and> complete_record (r s)"
  shows "executor w order sl = Some (Inr (summary initial (map r (order sl))))"
proof -
  have t: "those (map (process_sound w) (order sl)) = Some (map (\<lambda>s. Inr (r s)) (order sl))"
    by (rule those_map_Some) (simp add: assms)
  have z: "zip (order sl) (map (\<lambda>s. Inr (r s)) (order sl)) = map (\<lambda>s. (s, Inr (r s))) (order sl)"
    by (rule zip_map_same)
  have a: "as_completed initial (map (\<lambda>s. (s, Inr (r s))) (order sl))
      = Inr (summary initial (map r (order sl)))"
    by (rule as_completed_complete) (use assms process_sound_fields(3) in blast)
  show ?thesis
    by (simp only: executor_def t z a option.case)
qed

lemma executor_InrD:
  assumes "executor w order sl = Some (Inr st)" "s \<in> set (order sl)"
  shows "\<exists>sd. process_sound w s = Some (Inr sd) \<and> complete_record sd"
proof -
  from assms(1) obtain results where t: "those (map (process_sound w) (order sl)) = Some results"
    and a: "as_completed initial (zip (order sl) results) = Inr st"
    by (auto simp: executor_def split: option.splits)
  from those_map_SomeD [OF t] have r: "results = map (\<lambda>x. the (process_sound w x)) (order sl)"
    and n: "process_sound w s \<noteq> None"
    using assms(2) by auto
  have "(s, the (process_sound w s)) \<in> set (zip (order sl) results)"
    unfolding r zip_map_same using assms(2) by auto
  from as_completed_InrD [OF a this] obtain sd where "the (process_sound w s) = Inr sd" "complete_record sd"
    by blast
  with n show ?thesis by auto
qed

lemma executor_Inr:
  assumes "executor w order sl = Some (Inr st)"
  shows "\<exists>r. st = summary initial (map r (order sl)) \<and>
           (\<forall>s \<in> set (order sl). process_sound w s = Some (Inr (r s)) \<and> complete_record (r s))"
proof -
  have "\<forall>s \<in> set (order sl). \<exists>sd. process_sound w s = Some (Inr sd) \<and> complete_record sd"
    using executor_InrD [OF assms] by blast
  then obtain r where r: "\<forall>s \<in> set (order sl). process_sound w s = Some (Inr (r s)) \<and> complete_record (r s)"
    by (rule bchoice [THEN exE])
  then have "executor w order sl = Some (Inr (summary initial (map r (order sl))))"
    by (intro executor_complete) blast
  with assms have "st = summary initial (map r (order sl))" by simp
  with r show ?thesis by blast
qed

lemma executor_None:
  "executor w order sl = None \<longleftrightarrow> (\<exists>s \<in> set (order sl). process_sound w s = None)"
proof
  assume "executor w order sl = None"
  then have "those (map (process_sound w) (order sl)) = None"
    by (simp add: executor_def split: option.splits)
  then show "\<exists>s \<in> set (order sl). process_sound w s = None"
  proof (rule contrapos_pp)
    assume "\<not> (\<exists>s \<in> set (order sl). process_sound w s = None)"
    then have "those (map (process_sound w) (order sl)) = Some (map (\<lambda>s. the (process_sound w s)) (order sl))"
      by (intro those_map_Some) auto
    then show "those (map (process_sound w) (order sl)) \<noteq> None" by simp
  qed
next
  assume "\<exists>s \<in> set (order sl). process_sound w s = None"
  then have "those (map (process_sound w) (order sl)) = None"
    by (auto intro: those_map_None)
  then show "executor w order sl = None"
    by (simp add: executor_def)
qed

lemma sound_data_summary: "sound_data (summary initial sds) = sds"
  by (simp add: summary_def initial_def)

lemma sum_list_filter_perm:
  fixes f :: "'a \<Rightarrow> int"
  assumes "mset xs = mset ys"
  shows "sum_list (map f (filter p xs)) = sum_list (map f (filter p ys))"
proof -
  have "mset (map f (filter p xs)) = mset (map f (filter p ys))"
    by (simp add: assms)
  then have "sum_mset (mset (map f (filter p xs))) = sum_mset (mset (map f (filter p ys)))"
    by simp
  then show ?thesis
    by (simp only: sum_mset_sum_list)
qed

lemma summary_perm:
  assumes "mset xs = mset ys"
  shows "summary initial xs = (summary initial ys)\<lparr>sound_data := xs\<rparr>"
proof -
  from assms have s: "set xs = set ys" by (rule mset_eq_setD)
  from assms have e: "xs = [] \<longleftrightarrow> ys = []"
    by (metis mset_zero_iff)
  show ?thesis
    using s e sum_list_filter_perm [OF assms, of views_of]
    by (simp add: summary_def initial_def earliest_of_def)
qed

lemma drama_row_perm:
  assumes "mset xs = mset ys"
  shows "drama_row drama_id name price views (summary initial xs)
       = drama_row drama_id name price views (summary initial ys)"
    and "total_paid_udis (summary initial xs) = total_paid_udis (summary initial ys)"
  unfolding summary_perm [OF assms] by (simp_all add: drama_row_def)

lemma sort_key_perm:
  assumes "mset xs = mset ys" "inj_on f (set xs)"
  shows "sort_key f xs = sort_key f ys"
proof (rule sort_key_inj_key_eq)
  show "mset xs = mset (sort_key f ys)" using assms(1) by simp
  show "inj_on f (set xs)" by fact
  show "sorted (map f (sort_key f ys))" by simp
qed

lemma records_perm:
  assumes p1: "mset (order1 sl) = mset sl" and p2: "mset (order2 sl) = mset sl"
    and inj: "inj_on s_sound_id (set sl)"
    and r: "\<And>s. s \<in> set sl \<Longrightarrow> process_sound w s = Some (Inr (r s))"
  shows "sort_key sound_id (map r (order1 sl)) = sort_key sound_id (map r (order2 sl))"
proof (rule sort_key_perm)
  show "mset (map r (order1 sl)) = mset (map r (order2 sl))"
    using p1 p2 by simp
  from p1 have set: "set (order1 sl) = set sl" by (rule mset_eq_setD)
  show "inj_on sound_id (set (map r (order1 sl)))"
  proof (rule inj_onI)
    fix x y assume "x \<in> set (map r (order1 sl))" "y \<in> set (map r (order1 sl))"
      and eq: "sound_id x = sound_id y"
    then obtain s t where s: "s \<in> set sl" "x = r s" and t: "t \<in> set sl" "y = r t"
      using set by auto
    from r [OF s(1)] r [OF t(1)] eq s t have "s_sound_id s = s_sound_id t"
      by (simp add: process_sound_fields(1))
    with inj s t have "s = t" by (auto dest: inj_onD)
    with s t show "x = y" by simp
  qed
qed

section \<open>The rows\<close>

lemma sound_row_complete: "complete_record sd \<Longrightarrow> sound_row sd = Inr (episode_row sd)"
  by (simp add: sound_row_def episode_row_def complete_record_lookups)

lemma write_sound_rows_complete:
  "\<forall>sd \<in> set sds. complete_record sd \<Longrightarrow>
   write_sound_rows sds out = (out\<lparr>sound_writer := sound_writer out @ map episode_row sds\<rparr>, Inr ())"
proof (induction sds arbitrary: out)
  case Nil
  then show ?case by simp
next
  case (Cons sd sds)
  then have "sound_row sd = Inr (episode_row sd)"
    by (simp add: sound_row_def episode_row_def complete_record_lookups)
  with Cons show ?case by simp
qed

lemma write_sound_rows_frame:
  "write_sound_rows sds (append_rows out new) =
     (append_rows out (fst (write_sound_rows sds new)), snd (write_sound_rows sds new))"
proof (induction sds arbitrary: new)
  case Nil
  then show ?case by simp
next
  case (Cons sd sds)
  have a: "append_rows out new\<lparr>sound_writer := sound_writer (append_rows out new) @ [row]\<rparr>
      = append_rows out (new\<lparr>sound_writer := sound_writer new @ [row]\<rparr>)" for row
    by (simp add: append_rows_def)
  show ?case
    by (cases "sound_row sd") (simp_all add: a Cons.IH)
qed

lemma append_rows_no_rows: "append_rows out no_rows = out"
  by (simp add: append_rows_def no_rows_def)

lemma process_drama_id_frame:
  "process_drama_id w order drama_id out =
     map_option (\<lambda>(new, result). (append_rows out new, result))
       (process_drama_id w order drama_id no_rows)"
proof -
  have f: "write_sound_rows sds out =
     (append_rows out (fst (write_sound_rows sds no_rows)), snd (write_sound_rows sds no_rows))" for sds
    using write_sound_rows_frame [of sds out no_rows] by (simp add: append_rows_no_rows)
  have d: "append_rows out new\<lparr>drama_writer := drama_writer (append_rows out new) @ [row]\<rparr>
      = append_rows out (new\<lparr>drama_writer := drama_writer new @ [row]\<rparr>)" for new row
    by (simp add: append_rows_def)
  show ?thesis
    unfolding process_drama_id_def
    by (subst f)
       (auto simp: append_rows_no_rows d Let_def split: sum.splits option.splits prod.splits)
qed

lemma process_drama_id_frame2:
  "process_drama_id w order drama_id (append_rows out new) =
     map_option (\<lambda>(n, result). (append_rows out n, result))
       (process_drama_id w order drama_id new)"
proof -
  have a: "process_drama_id w order drama_id (append_rows out new) =
     map_option (\<lambda>(n, result). (append_rows (append_rows out new) n, result))
       (process_drama_id w order drama_id no_rows)"
    by (rule process_drama_id_frame)
  have b: "process_drama_id w order drama_id new =
     map_option (\<lambda>(n, result). (append_rows new n, result))
       (process_drama_id w order drama_id no_rows)"
    by (rule process_drama_id_frame)
  have c: "append_rows (append_rows out new) n = append_rows out (append_rows new n)" for n
    by (simp add: append_rows_def)
  show ?thesis
    unfolding a b
    by (cases "process_drama_id w order drama_id no_rows") (auto simp: c)
qed

lemma dramas_frame:
  "dramas w completion i ids (append_rows out new) drama_sound all_paid =
     map_option (\<lambda>(n, result). (append_rows out n, result))
       (dramas w completion i ids new drama_sound all_paid)"
proof (induction ids arbitrary: i new drama_sound all_paid)
  case Nil
  then show ?case by simp
next
  case (Cons drama_id ids)
  show ?case
    by (cases "process_drama_id w (completion i) (str_strip w drama_id) new")
       (auto simp: process_drama_id_frame2 Cons.IH split: sum.splits prod.splits)
qed

lemma runner_dramas:
  "runner w completion drama_ids =
     map_option (\<lambda>(new, result).
         (\<lparr>sound_writer = sound_header # sound_writer new,
           drama_writer = drama_header # drama_writer new\<rparr>, result))
       (dramas w completion 0 (split CHR '','' drama_ids) no_rows [] {})"
proof -
  let ?H = "\<lparr>sound_writer = [sound_header], drama_writer = [drama_header]\<rparr>"
  have 1: "dramas w completion 0 (split CHR '','' drama_ids) (append_rows ?H no_rows) [] {} =
      map_option (\<lambda>(n, result). (append_rows ?H n, result))
        (dramas w completion 0 (split CHR '','' drama_ids) no_rows [] {})"
    by (rule dramas_frame)
  have 2: "append_rows ?H no_rows = ?H"
    by (rule append_rows_no_rows)
  have 3: "(\<lambda>(n, result). (append_rows ?H n, result)) =
      (\<lambda>(new, result).
         (\<lparr>sound_writer = sound_header # sound_writer new,
           drama_writer = drama_header # drama_writer new\<rparr>, result))"
    by (simp add: append_rows_def)
  show ?thesis
    unfolding runner_def using 1 unfolding 2 3 .
qed

section \<open>The drama aggregator\<close>

lemma process_drama_id_empty:
  assumes "get_drama_sound_lists w drama_id = Inr ([], name, price, views, catalog_name)"
  shows "process_drama_id w order drama_id out =
           Some (out\<lparr>drama_writer := drama_writer out @ [default_row drama_id name price views]\<rparr>,
                 Inr ([], {}))"
  by (simp add: process_drama_id_def assms initial_def drama_row_def default_row_def opt_time_def)

lemma process_drama_id_complete:
  assumes lists: "get_drama_sound_lists w drama_id = Inr (sl, name, price, views, catalog_name)"
    and perm: "mset (order sl) = mset sl"
    and r: "\<And>s. s \<in> set sl \<Longrightarrow> process_sound w s = Some (Inr (r s)) \<and> complete_record (r s)"
  shows "process_drama_id w order drama_id out =
     Some (out\<lparr>sound_writer := sound_writer out @ map episode_row (sort_key sound_id (map r (order sl))),
               drama_writer := drama_writer out @
                 [drama_row drama_id name price views (summary initial (map r (order sl)))]\<rparr>,
           Inr (sort_key sound_id (map r (order sl)),
                total_paid_udis (summary initial (map r (order sl)))))"
proof -
  from perm have set: "set (order sl) = set sl" by (rule mset_eq_setD)
  have ex: "(if sl \<noteq> [] then executor w order sl else Some (Inr initial))
      = Some (Inr (summary initial (map r (order sl))))"
  proof (cases "sl = []")
    case True
    with perm have "order sl = []" by simp
    with True show ?thesis by (simp add: summary_Nil)
  next
    case False
    then show ?thesis
      using executor_complete [of order sl w r] r set by simp
  qed
  have "\<forall>sd \<in> set (sort_key sound_id (map r (order sl))). complete_record sd"
    using r set by auto
  from write_sound_rows_complete [OF this]
  show ?thesis
    by (simp add: process_drama_id_def lists ex sound_data_summary Let_def)
qed

lemma process_drama_id_InrD:
  assumes lists: "get_drama_sound_lists w drama_id = Inr (sl, name, price, views, catalog_name)"
    and ok: "process_drama_id w order drama_id out = Some (out', Inr (records, paid_udis))"
  shows "\<exists>r.
    (\<forall>s \<in> set (if sl = [] then [] else order sl).
        process_sound w s = Some (Inr (r s)) \<and> complete_record (r s))
    \<and> records = sort_key sound_id (map r (if sl = [] then [] else order sl))
    \<and> paid_udis = total_paid_udis (summary initial (map r (if sl = [] then [] else order sl)))
    \<and> out' = out\<lparr>sound_writer := sound_writer out @ map episode_row records,
                 drama_writer := drama_writer out @
                   [drama_row drama_id name price views
                      (summary initial (map r (if sl = [] then [] else order sl)))]\<rparr>"
proof -
  let ?ss = "if sl = [] then [] else order sl"
  from ok lists obtain st out1 where
    ex: "(if sl \<noteq> [] then executor w order sl else Some (Inr initial)) = Some (Inr st)"
    and rec: "records = sort_key sound_id (sound_data st)"
    and wr: "write_sound_rows records out = (out1, Inr ())"
    and out': "out' = out1\<lparr>drama_writer := drama_writer out1 @ [drama_row drama_id name price views st]\<rparr>"
    and paid: "paid_udis = total_paid_udis st"
    by (auto simp: process_drama_id_def Let_def split: option.splits sum.splits prod.splits)
  have "\<exists>r. st = summary initial (map r ?ss) \<and>
      (\<forall>s \<in> set ?ss. process_sound w s = Some (Inr (r s)) \<and> complete_record (r s))"
  proof (cases "sl = []")
    case True
    with ex show ?thesis by (simp add: summary_Nil)
  next
    case False
    with ex have "executor w order sl = Some (Inr st)" by simp
    from executor_Inr [OF this] False show ?thesis by simp
  qed
  then obtain r where st: "st = summary initial (map r ?ss)"
    and r: "\<forall>s \<in> set ?ss. process_sound w s = Some (Inr (r s)) \<and> complete_record (r s)"
    by blast
  have records: "records = sort_key sound_id (map r ?ss)"
    using rec st by (simp only: sound_data_summary)
  have "\<forall>sd \<in> set records. complete_record sd"
    unfolding records using r by auto
  from write_sound_rows_complete [OF this, of out] wr
  have "out1 = out\<lparr>sound_writer := sound_writer out @ map episode_row records\<rparr>"
    by simp
  with out' st have "out' = out\<lparr>sound_writer := sound_writer out @ map episode_row records,
                 drama_writer := drama_writer out @
                   [drama_row drama_id name price views (summary initial (map r ?ss))]\<rparr>"
    by simp
  with r records paid st show ?thesis
    by blast
qed

lemma process_drama_id_incomplete:
  assumes lists: "get_drama_sound_lists w drama_id = Inr (sl, name, price, views, catalog_name)"
    and perm: "mset (order sl) = mset sl"
    and bad: "\<not> (\<forall>s \<in> set sl. \<exists>sd. process_sound w s = Some (Inr sd) \<and> complete_record sd)"
  shows "\<exists>e. process_drama_id w order drama_id out =
           (if \<exists>s \<in> set sl. process_sound w s = None then None else Some (out, Inl e))"
proof -
  from perm have set: "set (order sl) = set sl" by (rule mset_eq_setD)
  from bad have ne: "sl \<noteq> []" by auto
  show ?thesis
  proof (cases "executor w order sl")
    case None
    then have "\<exists>s \<in> set sl. process_sound w s = None"
      using executor_None [of w order sl] set by simp
    with None ne show ?thesis
      by (simp add: process_drama_id_def lists)
  next
    case (Some res)
    then have nn: "\<not> (\<exists>s \<in> set sl. process_sound w s = None)"
      using executor_None [of w order sl] set by simp
    show ?thesis
    proof (cases res)
      case (Inl e)
      with Some ne nn show ?thesis
        by (simp add: process_drama_id_def lists)
    next
      case (Inr st)
      with Some have "\<forall>s \<in> set sl. \<exists>sd. process_sound w s = Some (Inr sd) \<and> complete_record sd"
        using executor_InrD [of w order sl st] set by blast
      with bad show ?thesis by contradiction
    qed
  qed
qed

lemma get_drama_sound_lists_failure:
  assumes "getdrama w drama_id = NoResponse \<or> getdrama w drama_id = BadStatus
           \<or> getdrama w drama_id = Undecodable"
  shows "get_drama_sound_lists w drama_id = Inr ([], CStr [], CStr [], CStr [], CStr [])"
  using assms by (auto simp: get_drama_sound_lists_def except_RequestException_def)

lemma get_sound_detail_SomeD:
  assumes "get_sound_detail w sid = Inr (Some d)"
  shows "\<exists>json. getsound w sid = Body json
           \<and> fromtimestamp w (get_default (sj_create_time (info_sound json)) 0) = Inr (create_time d)"
proof (cases "getsound w sid")
  case (Body json)
  with assms show ?thesis
    by (auto simp: get_sound_detail_def except_RequestException_def Let_def
        split: sum.splits if_splits)
qed (use assms in \<open>simp_all add: get_sound_detail_def except_RequestException_def\<close>)

lemma scenario_lists:
  "get_drama_sound_lists scenario ''62452'' =
     Inr ([episode_A, episode_B], CStr ''N'', CInt 199, CInt 1000, CStr ''C'')"
  by code_simp

subsection \<open>C9: a drama without episodes\<close>

text \<open>
  C9. When the episode-list fetch of a drama yields an empty list, as it does after a
  transport error, \<^verbatim>\<open>process_drama_id\<close> writes no episode row and exactly one summary row,
  whose aggregates are the defaults (no earliest creation time, view-count sums 0, all
  set sizes 0), and returns an empty list of records and an empty set; the loop of
  \<^verbatim>\<open>runner\<close> then goes on with the next drama identifier.
\<close>

theorem empty_episode_list:
  assumes "get_drama_sound_lists w drama_id = Inr ([], name, price, views, catalog_name)"
  shows "process_drama_id w order drama_id out =
           Some (out\<lparr>drama_writer := drama_writer out @
                        [[CStr drama_id, name, CNone, price, views,
                          CInt 0, CInt 0, CInt 0, CInt 0, CInt 0, CInt 0, CInt 0, CInt 0]]\<rparr>,
                 Inr ([], {}))
       \<and> (\<forall>field. str_strip w field = drama_id \<longrightarrow>
            dramas w completion i (field # rest) out drama_sound all_paid =
            dramas w completion (i + 1) rest
              (out\<lparr>drama_writer := drama_writer out @
                        [[CStr drama_id, name, CNone, price, views,
                          CInt 0, CInt 0, CInt 0, CInt 0, CInt 0, CInt 0, CInt 0, CInt 0]]\<rparr>)
              (AList.update field [] drama_sound) all_paid)"
  using process_drama_id_empty [OF assms] by (simp add: default_row_def)

theorem empty_episode_list_witness:
  "get_drama_sound_lists scenario ''7'' = Inr ([], CStr [], CStr [], CStr [], CStr [])
   \<and> process_drama_id scenario id ''7'' no_rows =
        Some (\<lparr>sound_writer = [],
               drama_writer = [[CStr ''7'', CStr [], CNone, CStr [], CStr [],
                                CInt 0, CInt 0, CInt 0, CInt 0, CInt 0, CInt 0, CInt 0, CInt 0]]\<rparr>,
              Inr ([], {}))"
proof -
  have h: "get_drama_sound_lists scenario ''7'' = Inr ([], CStr [], CStr [], CStr [], CStr [])"
    by code_simp
  show ?thesis
    using h empty_episode_list [OF h, of id no_rows] by (simp add: no_rows_def)
qed

subsection \<open>C6: a failing episode-list fetch\<close>

text \<open>
  C6, as the specification states it, fails: a payload that decodes but is incomplete is
  not absorbed. An episode without \<^verbatim>\<open>sound_id\<close> makes \<^verbatim>\<open>get_drama_sound_lists\<close> raise
  \<^verbatim>\<open>KeyError\<close>, which \<^verbatim>\<open>except requests.RequestException\<close> does not catch.
\<close>

theorem incomplete_payload_counterexample:
  "get_drama_sound_lists incomplete ''62452'' = Inl KeyError
   \<and> get_drama_sound_lists incomplete ''62452'' \<noteq> Inr ([], CStr [], CStr [], CStr [], CStr [])
   \<and> process_drama_id incomplete id ''62452'' no_rows = Some (no_rows, Inl KeyError)
   \<and> runner incomplete (\<lambda>i. id) ''62452,7''
        = Some (\<lparr>sound_writer = [sound_header], drama_writer = [drama_header]\<rparr>, Inl KeyError)"
proof -
  have 1: "get_drama_sound_lists incomplete ''62452'' = Inl KeyError"
    by code_simp
  have 2: "process_drama_id incomplete id ''62452'' no_rows = Some (no_rows, Inl KeyError)"
    by code_simp
  have "dramas incomplete (\<lambda>i. id) 0 (split CHR '','' ''62452,7'') no_rows [] {}
      = Some (no_rows, Inl KeyError)"
    by code_simp
  then have 3: "runner incomplete (\<lambda>i. id) ''62452,7''
        = Some (\<lparr>sound_writer = [sound_header], drama_writer = [drama_header]\<rparr>, Inl KeyError)"
    by (simp add: runner_dramas no_rows_def)
  from 1 2 3 show ?thesis by simp
qed

text \<open>
  C6, amended. On a transport failure, an error status or a body that is not JSON,
  \<^verbatim>\<open>get_drama_sound_lists\<close> returns the empty episode list and four empty strings rather
  than raising, so that \<^verbatim>\<open>process_drama_id\<close> writes the default summary row and returns,
  and the loop of \<^verbatim>\<open>runner\<close> goes on with the next drama identifier.
\<close>

theorem episode_list_failure:
  assumes "getdrama w drama_id = NoResponse \<or> getdrama w drama_id = BadStatus
           \<or> getdrama w drama_id = Undecodable"
  shows "get_drama_sound_lists w drama_id = Inr ([], CStr [], CStr [], CStr [], CStr [])
       \<and> process_drama_id w order drama_id out =
           Some (out\<lparr>drama_writer := drama_writer out @
                        [[CStr drama_id, CStr [], CNone, CStr [], CStr [],
                          CInt 0, CInt 0, CInt 0, CInt 0, CInt 0, CInt 0, CInt 0, CInt 0]]\<rparr>,
                 Inr ([], {}))
       \<and> (\<forall>field. str_strip w field = drama_id \<longrightarrow>
            dramas w completion i (field # rest) out drama_sound all_paid =
            dramas w completion (i + 1) rest
              (out\<lparr>drama_writer := drama_writer out @
                        [[CStr drama_id, CStr [], CNone, CStr [], CStr [],
                          CInt 0, CInt 0, CInt 0, CInt 0, CInt 0, CInt 0, CInt 0, CInt 0]]\<rparr>)
              (AList.update field [] drama_sound) all_paid)"
  using get_drama_sound_lists_failure [OF assms]
    process_drama_id_empty [OF get_drama_sound_lists_failure [OF assms]]
  by (simp add: default_row_def)

theorem episode_list_failure_witness:
  "getdrama scenario ''7'' = NoResponse
   \<and> get_drama_sound_lists scenario ''7'' = Inr ([], CStr [], CStr [], CStr [], CStr [])
   \<and> process_drama_id scenario id ''7'' no_rows =
        Some (\<lparr>sound_writer = [],
               drama_writer = [[CStr ''7'', CStr [], CNone, CStr [], CStr [],
                                CInt 0, CInt 0, CInt 0, CInt 0, CInt 0, CInt 0, CInt 0, CInt 0]]\<rparr>,
              Inr ([], {}))
   \<and> map_option snd (runner scenario (\<lambda>i. id) ''7, 62452'') =
        Some (Inr ([(''7'', []), ('' 62452'', [record_A, record_B])], {4}))"
proof -
  have h: "getdrama scenario ''7'' = NoResponse"
    by (simp add: scenario_def)
  have "dramas scenario (\<lambda>i. id) 0 (split CHR '','' ''7, 62452'') no_rows [] {} =
      Some (\<lparr>sound_writer = [[CStr ''A'', CTime 200, CInt 0, CInt 2, CInt 2, CInt 3],
                               [CStr ''B'', CTime 100, CInt 1, CInt 1, CInt 0, CInt 1]],
              drama_writer = [[CStr ''7'', CStr [], CNone, CStr [], CStr [],
                                CInt 0, CInt 0, CInt 0, CInt 0, CInt 0, CInt 0, CInt 0, CInt 0],
                              [CStr ''62452'', CStr ''N'', CTime 100, CInt 199, CInt 1000,
                               CInt 5, CInt 10, CInt 1, CInt 0, CInt 2, CInt 2, CInt 1, CInt 3]]\<rparr>,
            Inr ([(''7'', []), ('' 62452'', [record_A, record_B])], {4}))"
    by code_simp
  then have r: "map_option snd (runner scenario (\<lambda>i. id) ''7, 62452'') =
        Some (Inr ([(''7'', []), ('' 62452'', [record_A, record_B])], {4}))"
    by (simp add: runner_dramas)
  from episode_list_failure [of scenario "''7''" id no_rows, OF disjI1 [OF h]] h r
  show ?thesis
    by (simp add: no_rows_def)
qed

subsection \<open>C3: the order of the episode rows\<close>

text \<open>
  C3, as the specification states it, fails: the sort is stable and by identifier only,
  so two episodes of a drama that share the identifier keep the order in which their
  futures completed.
\<close>

theorem equal_identifiers_counterexample:
  "map_option (sound_writer \<circ> fst) (process_drama_id twins id ''62452'' no_rows) =
     Some [[CStr ''A'', CTime 200, CInt 0, CInt 2, CInt 2, CInt 3],
           [CStr ''A2'', CTime 200, CInt 0, CInt 2, CInt 2, CInt 3]]
   \<and> map_option (sound_writer \<circ> fst) (process_drama_id twins rev ''62452'' no_rows) =
     Some [[CStr ''A2'', CTime 200, CInt 0, CInt 2, CInt 2, CInt 3],
           [CStr ''A'', CTime 200, CInt 0, CInt 2, CInt 2, CInt 3]]"
  by code_simp

text \<open>
  C3, amended. Whenever \<^verbatim>\<open>process_drama_id\<close> returns, under any completion order, the
  records it returns are sorted by identifier in ascending order and the episode rows it
  has written are the rows of these records in this order. When the episodes of the
  drama with the same identifier are the same episode (in particular when the
  identifiers are pairwise distinct), the completion order has no influence: under any
  two completion orders, \<^verbatim>\<open>process_drama_id\<close> leaves the same rows in both writers, and
  returns the same value under the one whenever it returns under the other.
\<close>

theorem episode_rows_sorted:
  assumes lists: "get_drama_sound_lists w drama_id = Inr (sl, name, price, views, catalog_name)"
  shows "(\<forall>out' records paid_udis.
            process_drama_id w order1 drama_id out = Some (out', Inr (records, paid_udis)) \<longrightarrow>
            sorted (map sound_id records)
            \<and> (\<exists>rows. sound_writer out' = sound_writer out @ rows
                       \<and> map sound_row records = map Inr rows))
       \<and> (mset (order1 sl) = mset sl \<and> mset (order2 sl) = mset sl \<and> inj_on s_sound_id (set sl) \<longrightarrow>
            map_option fst (process_drama_id w order1 drama_id out)
              = map_option fst (process_drama_id w order2 drama_id out)
            \<and> (\<forall>out' result.
                  process_drama_id w order1 drama_id out = Some (out', Inr result) \<longrightarrow>
                  process_drama_id w order2 drama_id out = Some (out', Inr result)))"
proof (intro conjI allI impI)
  fix out' records paid_udis
  assume ok: "process_drama_id w order1 drama_id out = Some (out', Inr (records, paid_udis))"
  from process_drama_id_InrD [OF lists ok] obtain r where
    r: "\<forall>s \<in> set (if sl = [] then [] else order1 sl).
        process_sound w s = Some (Inr (r s)) \<and> complete_record (r s)"
    and rec: "records = sort_key sound_id (map r (if sl = [] then [] else order1 sl))"
    and out': "out' = out\<lparr>sound_writer := sound_writer out @ map episode_row records,
                 drama_writer := drama_writer out @
                   [drama_row drama_id name price views
                      (summary initial (map r (if sl = [] then [] else order1 sl)))]\<rparr>"
    by blast
  show "sorted (map sound_id records)"
    unfolding rec by simp
  have "\<forall>sd \<in> set records. complete_record sd"
    unfolding rec using r by auto
  then have "map sound_row records = map Inr (map episode_row records)"
    by (simp add: sound_row_complete)
  with out' show "\<exists>rows. sound_writer out' = sound_writer out @ rows
                       \<and> map sound_row records = map Inr rows"
    by auto
next
  assume h: "mset (order1 sl) = mset sl \<and> mset (order2 sl) = mset sl \<and> inj_on s_sound_id (set sl)"
  then have p1: "mset (order1 sl) = mset sl" and p2: "mset (order2 sl) = mset sl"
    and inj: "inj_on s_sound_id (set sl)"
    by simp_all
  have both: "map_option fst (process_drama_id w order1 drama_id out)
              = map_option fst (process_drama_id w order2 drama_id out)
            \<and> (\<forall>out' result.
                  process_drama_id w order1 drama_id out = Some (out', Inr result) \<longrightarrow>
                  process_drama_id w order2 drama_id out = Some (out', Inr result))"
  proof (cases "\<forall>s \<in> set sl. \<exists>sd. process_sound w s = Some (Inr sd) \<and> complete_record sd")
    case True
    then obtain r where r: "\<forall>s \<in> set sl. process_sound w s = Some (Inr (r s)) \<and> complete_record (r s)"
      by (rule bchoice [THEN exE])
    have m: "mset (map r (order1 sl)) = mset (map r (order2 sl))"
      using p1 p2 by simp
    have s: "sort_key sound_id (map r (order1 sl)) = sort_key sound_id (map r (order2 sl))"
      using p1 p2 inj r by (intro records_perm [of order1 sl order2 w r]) auto
    have r': "\<And>s. s \<in> set sl \<Longrightarrow> process_sound w s = Some (Inr (r s)) \<and> complete_record (r s)"
      using r by blast
    have "process_drama_id w order1 drama_id out = process_drama_id w order2 drama_id out"
      using process_drama_id_complete [where order = order1 and r = r and out = out, OF lists p1 r']
        process_drama_id_complete [where order = order2 and r = r and out = out, OF lists p2 r']
        s drama_row_perm [OF m]
      by simp
    then show ?thesis by simp
  next
    case False
    from process_drama_id_incomplete [where order = order1 and out = out, OF lists p1 False]
    obtain e1 where e1: "process_drama_id w order1 drama_id out =
        (if \<exists>s \<in> set sl. process_sound w s = None then None else Some (out, Inl e1))"
      by blast
    from process_drama_id_incomplete [where order = order2 and out = out, OF lists p2 False]
    obtain e2 where e2: "process_drama_id w order2 drama_id out =
        (if \<exists>s \<in> set sl. process_sound w s = None then None else Some (out, Inl e2))"
      by blast
    show ?thesis
      by (cases "\<exists>s \<in> set sl. process_sound w s = None") (simp_all add: e1 e2)
  qed
  from both show "map_option fst (process_drama_id w order1 drama_id out)
              = map_option fst (process_drama_id w order2 drama_id out)"
    by simp
  fix out' result
  assume "process_drama_id w order1 drama_id out = Some (out', Inr result)"
  with both show "process_drama_id w order2 drama_id out = Some (out', Inr result)"
    by blast
qed

theorem episode_rows_sorted_witness:
  "get_drama_sound_lists scenario ''62452'' =
     Inr ([episode_A, episode_B], CStr ''N'', CInt 199, CInt 1000, CStr ''C'')
   \<and> mset (rev [episode_A, episode_B]) = mset [episode_A, episode_B]
   \<and> inj_on s_sound_id (set [episode_A, episode_B])
   \<and> process_drama_id scenario rev ''62452'' no_rows =
       Some (\<lparr>sound_writer = [[CStr ''A'', CTime 200, CInt 0, CInt 2, CInt 2, CInt 3],
                               [CStr ''B'', CTime 100, CInt 1, CInt 1, CInt 0, CInt 1]],
              drama_writer = [[CStr ''62452'', CStr ''N'', CTime 100, CInt 199, CInt 1000,
                               CInt 5, CInt 10, CInt 1, CInt 0, CInt 2, CInt 2, CInt 1, CInt 3]]\<rparr>,
             Inr ([record_A, record_B], {4}))
   \<and> process_drama_id scenario id ''62452'' no_rows =
       process_drama_id scenario rev ''62452'' no_rows
   \<and> sorted (map sound_id [record_A, record_B])"
proof -
  have p: "mset (rev [episode_A, episode_B]) = mset [episode_A, episode_B]
      \<and> mset (id [episode_A, episode_B]) = mset [episode_A, episode_B]
      \<and> inj_on s_sound_id (set [episode_A, episode_B])"
    by (simp add: episode_A_def episode_B_def)
  have ok: "process_drama_id scenario rev ''62452'' no_rows =
       Some (\<lparr>sound_writer = [[CStr ''A'', CTime 200, CInt 0, CInt 2, CInt 2, CInt 3],
                               [CStr ''B'', CTime 100, CInt 1, CInt 1, CInt 0, CInt 1]],
              drama_writer = [[CStr ''62452'', CStr ''N'', CTime 100, CInt 199, CInt 1000,
                               CInt 5, CInt 10, CInt 1, CInt 0, CInt 2, CInt 2, CInt 1, CInt 3]]\<rparr>,
             Inr ([record_A, record_B], {4}))"
    by code_simp
  from episode_rows_sorted [where ?order1.0 = rev and ?order2.0 = id and out = no_rows,
      OF scenario_lists] p ok
  have "sorted (map sound_id [record_A, record_B])"
    and "process_drama_id scenario id ''62452'' no_rows =
       process_drama_id scenario rev ''62452'' no_rows"
    by (blast, metis)
  with scenario_lists p ok show ?thesis by blast
qed

subsection \<open>C7: the earliest creation time\<close>

text \<open>
  C7. When \<^verbatim>\<open>process_drama_id\<close> returns for a drama with a non-empty episode list, it has
  written one summary row, whose third field is the minimum of the creation times of
  the records it returns. These are the records of all episodes of the drama, paid and
  free, and the creation time of each is \<^verbatim>\<open>fromtimestamp\<close> of the \<^verbatim>\<open>create_time\<close> of its detail
  payload, or of 0 when the payload has none: the default takes part in the minimum like
  any other value.
\<close>

theorem earliest_create_time:
  assumes lists: "get_drama_sound_lists w drama_id = Inr (sl, name, price, views, catalog_name)"
    and ne: "sl \<noteq> []"
    and perm: "mset (order sl) = mset sl"
    and ok: "process_drama_id w order drama_id out = Some (out', Inr (records, paid_udis))"
  shows "mset (map sound_id records) = mset (map s_sound_id sl)
       \<and> (\<forall>rec \<in> set records. \<exists>json t.
             getsound w (sound_id rec) = Body json
             \<and> fromtimestamp w (get_default (sj_create_time (info_sound json)) 0) = Inr t
             \<and> lookup_create_time rec = Inr t)
       \<and> (\<exists>row. drama_writer out' = drama_writer out @ [row]
             \<and> row ! 2 = CTime (Min {t. \<exists>rec \<in> set records. lookup_create_time rec = Inr t}))"
proof -
  from perm have set: "set (order sl) = set sl" by (rule mset_eq_setD)
  from process_drama_id_InrD [OF lists ok] ne obtain r where
    r: "\<forall>s \<in> set (order sl). process_sound w s = Some (Inr (r s)) \<and> complete_record (r s)"
    and rec: "records = sort_key sound_id (map r (order sl))"
    and out': "out' = out\<lparr>sound_writer := sound_writer out @ map episode_row records,
                 drama_writer := drama_writer out @
                   [drama_row drama_id name price views (summary initial (map r (order sl)))]\<rparr>"
    by auto
  have sr: "set records = r ` set sl"
    unfolding rec using set by simp
  have "mset (map sound_id records) = image_mset (\<lambda>s. sound_id (r s)) (mset (order sl))"
    unfolding rec by (simp add: multiset.map_comp comp_def)
  also have "\<dots> = image_mset s_sound_id (mset (order sl))"
    using r by (intro image_mset_cong) (auto dest: process_sound_fields(1))
  finally have 1: "mset (map sound_id records) = mset (map s_sound_id sl)"
    using perm by simp
  have 2: "\<exists>json t. getsound w (sound_id rec) = Body json
             \<and> fromtimestamp w (get_default (sj_create_time (info_sound json)) 0) = Inr t
             \<and> lookup_create_time rec = Inr t" if "rec \<in> set records" for rec
  proof -
    from that sr obtain s where s: "s \<in> set sl" "rec = r s" by auto
    with r set have p: "process_sound w s = Some (Inr rec)" and c: "complete_record rec" by auto
    from c obtain d where d: "detail rec = Some d" by (auto simp: complete_record_def)
    from process_sound_fields(7) [OF p] d have "get_sound_detail w (s_sound_id s) = Inr (Some d)"
      by simp
    from get_sound_detail_SomeD [OF this] process_sound_fields(1) [OF p] d show ?thesis
      by (auto simp: lookup_create_time_def)
  qed
  have complete: "\<forall>rec \<in> set records. complete_record rec"
    using sr r set by auto
  have "{t. \<exists>rec \<in> set records. lookup_create_time rec = Inr t} = created ` set records"
    using complete by (auto simp: complete_record_lookups)
  moreover have "map r (order sl) \<noteq> []"
    using ne set by auto
  moreover have "set (map r (order sl)) = set records"
    unfolding rec by simp
  ultimately have "drama_row drama_id name price views (summary initial (map r (order sl))) ! 2
      = CTime (Min {t. \<exists>rec \<in> set records. lookup_create_time rec = Inr t})"
    by (simp add: drama_row_def summary_def initial_def earliest_of_def opt_time_def)
  with out' have 3: "\<exists>row. drama_writer out' = drama_writer out @ [row]
             \<and> row ! 2 = CTime (Min {t. \<exists>rec \<in> set records. lookup_create_time rec = Inr t})"
    by simp
  from 1 2 3 show ?thesis by blast
qed

theorem earliest_create_time_witness:
  "get_drama_sound_lists undated ''62452'' =
     Inr ([episode_A, episode_B], CStr ''N'', CInt 199, CInt 1000, CStr ''C'')
   \<and> process_drama_id undated rev ''62452'' no_rows =
       Some (\<lparr>sound_writer = [[CStr ''A'', CTime 0, CInt 0, CInt 2, CInt 2, CInt 3],
                               [CStr ''B'', CTime 100, CInt 1, CInt 1, CInt 0, CInt 1]],
              drama_writer = [[CStr ''62452'', CStr ''N'', CTime 0, CInt 199, CInt 1000,
                               CInt 5, CInt 10, CInt 1, CInt 0, CInt 2, CInt 2, CInt 1, CInt 3]]\<rparr>,
             Inr ([record_A_undated, record_B], {4}))
   \<and> Min {t. \<exists>rec \<in> set [record_A_undated, record_B]. lookup_create_time rec = Inr t} = 0"
proof -
  have l: "get_drama_sound_lists undated ''62452'' =
     Inr ([episode_A, episode_B], CStr ''N'', CInt 199, CInt 1000, CStr ''C'')"
    by code_simp
  have ne: "[episode_A, episode_B] \<noteq> []" by simp
  have p: "mset (rev [episode_A, episode_B]) = mset [episode_A, episode_B]" by simp
  have ok: "process_drama_id undated rev ''62452'' no_rows =
       Some (\<lparr>sound_writer = [[CStr ''A'', CTime 0, CInt 0, CInt 2, CInt 2, CInt 3],
                               [CStr ''B'', CTime 100, CInt 1, CInt 1, CInt 0, CInt 1]],
              drama_writer = [[CStr ''62452'', CStr ''N'', CTime 0, CInt 199, CInt 1000,
                               CInt 5, CInt 10, CInt 1, CInt 0, CInt 2, CInt 2, CInt 1, CInt 3]]\<rparr>,
             Inr ([record_A_undated, record_B], {4}))"
    by code_simp
  from earliest_create_time [where order = rev, OF l ne p ok]
  have "\<exists>row. [[CStr ''62452'', CStr ''N'', CTime 0, CInt 199, CInt 1000,
                 CInt 5, CInt 10, CInt 1, CInt 0, CInt 2, CInt 2, CInt 1, CInt 3]]
               = drama_writer no_rows @ [row]
             \<and> row ! 2 = CTime (Min {t. \<exists>rec \<in> set [record_A_undated, record_B].
                                        lookup_create_time rec = Inr t})"
    by simp
  then have "Min {t. \<exists>rec \<in> set [record_A_undated, record_B]. lookup_create_time rec = Inr t} = 0"
    by (auto simp: no_rows_def)
  with l ok show ?thesis by blast
qed

subsection \<open>C8: the scenario with two episodes\<close>

text \<open>
  C8. Let a drama have exactly two episodes: A, free, with view count 10, inline set
  \<open>{1, 2}\<close> and threaded set \<open>{2, 3}\<close>, and B, paid (\<^verbatim>\<open>need_pay\<close> 1), with view count 5,
  inline set \<open>{4}\<close> and empty threaded set. Then, whatever the completion order,
  \<^verbatim>\<open>process_drama_id\<close> returns and writes the summary row with paid view-count sum 5, free
  view-count sum 10, paid union size 1 and free union size 3 (and inline and threaded
  sizes 1, 0, 2, 2), and two episode rows, among them the row of A with combined size 3.
\<close>

theorem two_episode_scenario:
  assumes lists: "get_drama_sound_lists w drama_id = Inr ([a, b], name, price, views, catalog_name)"
    and perm: "mset (order [a, b]) = mset [a, b]"
    and a: "s_need_pay a = 0" "process_sound w a = Some (Inr ra)" "int_view_count ra = Inr 10"
      "danmaku_uids ra = {1, 2}" "comment_uids ra = {2, 3}"
    and b: "s_need_pay b = 1" "process_sound w b = Some (Inr rb)" "int_view_count rb = Inr 5"
      "danmaku_uids rb = {4}" "comment_uids rb = {}"
  shows "\<exists>out' records paid_udis first.
           process_drama_id w order drama_id out = Some (out', Inr (records, paid_udis))
           \<and> drama_writer out' = drama_writer out @
                 [[CStr drama_id, name, first, price, views,
                   CInt 5, CInt 10, CInt 1, CInt 0, CInt 2, CInt 2, CInt 1, CInt 3]]
           \<and> sound_row ra = Inr [CStr (s_sound_title a), CTime (created ra), CInt 0,
                                 CInt 2, CInt 2, CInt 3]
           \<and> [CStr (s_sound_title a), CTime (created ra), CInt 0, CInt 2, CInt 2, CInt 3]
                 \<in> set (drop (length (sound_writer out)) (sound_writer out'))
           \<and> length (sound_writer out') = length (sound_writer out) + 2"
proof -
  define r where "r s = (if s = a then ra else rb)" for s
  have ca: "complete_record ra" and cb: "complete_record rb"
    using a(3) b(3) by (auto dest: int_view_count_complete)
  have rb: "r b = rb"
    using a(2) b(2) by (auto simp: r_def)
  have r: "process_sound w s = Some (Inr (r s)) \<and> complete_record (r s)" if "s \<in> set [a, b]" for s
    using that a(2) b(2) ca cb by (auto simp: r_def)
  have m: "mset (map r (order [a, b])) = mset [ra, rb]"
  proof -
    have "mset (map r (order [a, b])) = image_mset r (mset (order [a, b]))" by simp
    also have "\<dots> = image_mset r (mset [a, b])" by (simp only: perm)
    also have "\<dots> = mset [ra, rb]" using rb by (simp add: r_def)
    finally show ?thesis .
  qed
  have fa: "need_pay ra = 0" "sound_title ra = s_sound_title a"
      "total_sound_uids ra = {1, 2, 3}"
    using process_sound_fields [OF a(2)] a by auto
  have fb: "need_pay rb = 1" "total_sound_uids rb = {4}"
    using process_sound_fields [OF b(2)] b by auto
  have va: "views_of ra = 10" and vb: "views_of rb = 5"
    using a(3) b(3) by (simp_all add: views_of_def)
  have row: "drama_row drama_id name price views (summary initial (map r (order [a, b]))) =
      [CStr drama_id, name, CTime (Min {created ra, created rb}), price, views,
       CInt 5, CInt 10, CInt 1, CInt 0, CInt 2, CInt 2, CInt 1, CInt 3]"
    unfolding drama_row_perm(1) [OF m]
    by (simp add: drama_row_def summary_def initial_def earliest_of_def opt_time_def
        paid_def free_def fa fb va vb a b)
  have era: "episode_row ra = [CStr (s_sound_title a), CTime (created ra), CInt 0, CInt 2, CInt 2, CInt 3]"
    by (simp add: episode_row_def fa a)
  have "ra \<in> set (sort_key sound_id (map r (order [a, b])))"
    using mset_eq_setD [OF m] by simp
  then have mem: "episode_row ra \<in> set (map episode_row (sort_key sound_id (map r (order [a, b]))))"
    unfolding set_map by (rule imageI)
  have len: "length (sort_key sound_id (map r (order [a, b]))) = 2"
    using mset_eq_length [OF m] by simp
  from process_drama_id_complete [where order = order and r = r and out = out, OF lists perm r]
  have "process_drama_id w order drama_id out =
     Some (out\<lparr>sound_writer := sound_writer out @ map episode_row (sort_key sound_id (map r (order [a, b]))),
               drama_writer := drama_writer out @
                 [drama_row drama_id name price views (summary initial (map r (order [a, b])))]\<rparr>,
           Inr (sort_key sound_id (map r (order [a, b])),
                total_paid_udis (summary initial (map r (order [a, b])))))"
    by simp
  with row era mem len sound_row_complete [OF ca] show ?thesis
    by simp
qed

theorem two_episode_scenario_witness:
  "get_drama_sound_lists scenario ''62452'' =
     Inr ([episode_A, episode_B], CStr ''N'', CInt 199, CInt 1000, CStr ''C'')
   \<and> process_sound scenario episode_A = Some (Inr record_A)
   \<and> process_sound scenario episode_B = Some (Inr record_B)
   \<and> (\<exists>out' records paid_udis first.
           process_drama_id scenario rev ''62452'' no_rows = Some (out', Inr (records, paid_udis))
           \<and> drama_writer out' = drama_writer no_rows @
                 [[CStr ''62452'', CStr ''N'', first, CInt 199, CInt 1000,
                   CInt 5, CInt 10, CInt 1, CInt 0, CInt 2, CInt 2, CInt 1, CInt 3]]
           \<and> sound_row record_A = Inr [CStr (s_sound_title episode_A), CTime (created record_A), CInt 0,
                                 CInt 2, CInt 2, CInt 3]
           \<and> [CStr (s_sound_title episode_A), CTime (created record_A), CInt 0, CInt 2, CInt 2, CInt 3]
                 \<in> set (drop (length (sound_writer no_rows)) (sound_writer out'))
           \<and> length (sound_writer out') = length (sound_writer no_rows) + 2)"
proof -
  have p: "mset (rev [episode_A, episode_B]) = mset [episode_A, episode_B]" by simp
  have a: "s_need_pay episode_A = 0" "process_sound scenario episode_A = Some (Inr record_A)"
    "int_view_count record_A = Inr 10" "danmaku_uids record_A = {1, 2}" "comment_uids record_A = {2, 3}"
    by code_simp+
  have b: "s_need_pay episode_B = 1" "process_sound scenario episode_B = Some (Inr record_B)"
    "int_view_count record_B = Inr 5" "danmaku_uids record_B = {4}" "comment_uids record_B = {}"
    by code_simp+
  from two_episode_scenario [where order = rev and out = no_rows, OF scenario_lists p a b]
    scenario_lists a(2) b(2)
  show ?thesis by blast
qed

subsection \<open>C1: failures of the fetches of one episode\<close>

text \<open>
  C1, as the specification states it, fails: a transport failure of the threaded-comment
  fetch of one episode leaves \<^verbatim>\<open>fetch_all_uids_by_comments\<close>, which has no handler, and
  \<^verbatim>\<open>process_sound\<close>, and \<^verbatim>\<open>process_drama_id\<close> at the join of the futures. No row is written
  for the drama, and \<^verbatim>\<open>runner\<close> ends with the exception before the next drama identifier.
\<close>

theorem threaded_failure_counterexample:
  "getcomment (with_comments NoResponse) (endpoint 2 1) = NoResponse
   \<and> fetch_all_uids_by_comments (with_comments NoResponse) 2 = Some (Inl ConnectionError)
   \<and> process_drama_id (with_comments NoResponse) id ''62452'' no_rows
        = Some (no_rows, Inl ConnectionError)
   \<and> process_drama_id (with_comments NoResponse) rev ''62452'' no_rows
        = Some (no_rows, Inl ConnectionError)
   \<and> runner (with_comments NoResponse) (\<lambda>i. id) ''62452,7''
        = Some (\<lparr>sound_writer = [sound_header], drama_writer = [drama_header]\<rparr>,
                Inl ConnectionError)"
proof -
  have 1: "getcomment (with_comments NoResponse) (endpoint 2 1) = NoResponse"
    by (simp add: with_comments_def)
  have 2: "fetch_all_uids_by_comments (with_comments NoResponse) 2 = Some (Inl ConnectionError)"
    by code_simp
  have 3: "process_drama_id (with_comments NoResponse) id ''62452'' no_rows
        = Some (no_rows, Inl ConnectionError)"
    by code_simp
  have 4: "process_drama_id (with_comments NoResponse) rev ''62452'' no_rows
        = Some (no_rows, Inl ConnectionError)"
    by code_simp
  have "dramas (with_comments NoResponse) (\<lambda>i. id) 0 (split CHR '','' ''62452,7'') no_rows [] {}
      = Some (no_rows, Inl ConnectionError)"
    by code_simp
  then have 5: "runner (with_comments NoResponse) (\<lambda>i. id) ''62452,7''
        = Some (\<lparr>sound_writer = [sound_header], drama_writer = [drama_header]\<rparr>,
                Inl ConnectionError)"
    by (simp add: runner_dramas no_rows_def)
  from 1 2 3 4 5 show ?thesis by blast
qed

text \<open>
  A failing detail fetch ends \<^verbatim>\<open>process_drama_id\<close> as well: \<^verbatim>\<open>get_sound_detail\<close> absorbs the
  failure and returns the empty dictionary, but line 138 then reads the \<^verbatim>\<open>create_time\<close>
  that the record does not have.
\<close>

lemma detail_failure_aborts:
  "get_sound_detail without_detail 2 = Inr None
   \<and> process_drama_id without_detail id ''62452'' no_rows = Some (no_rows, Inl KeyError)
   \<and> process_drama_id without_detail rev ''62452'' no_rows = Some (no_rows, Inl KeyError)"
  by code_simp

lemma dramas_raises:
  assumes "process_drama_id w (completion i) (str_strip w field) out = Some (out', Inl e)"
  shows "dramas w completion i (field # rest) out drama_sound all_paid = Some (out', Inl e)"
  using assms by simp

lemma sub_fetch_failures_aux:
  assumes lists: "get_drama_sound_lists w drama_id = Inr (sl, name, price, views, catalog_name)"
    and perm: "mset (order sl) = mset sl"
  shows "(\<forall>sid. getdm w sid = NoResponse \<or> getdm w sid = BadStatus \<or> getdm w sid = Undecodable
              \<longrightarrow> fetch_all_danmakus w sid = Inr {})
       \<and> ((\<forall>s \<in> set sl.
              (\<exists>d v. get_sound_detail w (s_sound_id s) = Inr (Some d) \<and> view_count d = Some v)
              \<and> (\<exists>dm. fetch_all_danmakus w (s_sound_id s) = Inr dm)
              \<and> (\<exists>cm. fetch_all_uids_by_comments w (s_sound_id s) = Some (Inr cm)))
            \<longrightarrow> (\<exists>out' records paid_udis row.
                   process_drama_id w order drama_id out = Some (out', Inr (records, paid_udis))
                   \<and> drama_writer out' = drama_writer out @ [row]
                   \<and> mset (map sound_id records) = mset (map s_sound_id sl)
                   \<and> (\<forall>rec \<in> set records.
                         getdm w (sound_id rec) = NoResponse \<or> getdm w (sound_id rec) = BadStatus
                         \<or> getdm w (sound_id rec) = Undecodable
                         \<longrightarrow> danmaku_uids rec = {})))
       \<and> (\<forall>sid. getcomment w (endpoint sid 1) = NoResponse
              \<longrightarrow> fetch_all_uids_by_comments w sid = Some (Inl ConnectionError))
       \<and> ((\<exists>s \<in> set sl. \<exists>e. fetch_all_uids_by_comments w (s_sound_id s) = Some (Inl e))
            \<and> (\<forall>s \<in> set sl. process_sound w s \<noteq> None)
            \<longrightarrow> (\<exists>e. process_drama_id w order drama_id out = Some (out, Inl e)))"
proof (intro conjI allI impI)
  fix sid
  assume "getdm w sid = NoResponse \<or> getdm w sid = BadStatus \<or> getdm w sid = Undecodable"
  then show "fetch_all_danmakus w sid = Inr {}"
    by (rule fetch_all_danmakus_failure)
next
  fix sid
  assume "getcomment w (endpoint sid 1) = NoResponse"
  then show "fetch_all_uids_by_comments w sid = Some (Inl ConnectionError)"
    by (rule fetch_all_uids_by_comments_transport)
next
  assume h: "\<forall>s \<in> set sl.
              (\<exists>d v. get_sound_detail w (s_sound_id s) = Inr (Some d) \<and> view_count d = Some v)
              \<and> (\<exists>dm. fetch_all_danmakus w (s_sound_id s) = Inr dm)
              \<and> (\<exists>cm. fetch_all_uids_by_comments w (s_sound_id s) = Some (Inr cm))"
  have "\<forall>s \<in> set sl. \<exists>sd. process_sound w s = Some (Inr sd) \<and> complete_record sd"
  proof
    fix s assume "s \<in> set sl"
    with h obtain d v dm cm where "get_sound_detail w (s_sound_id s) = Inr (Some d)" "view_count d = Some v"
      "fetch_all_danmakus w (s_sound_id s) = Inr dm"
      "fetch_all_uids_by_comments w (s_sound_id s) = Some (Inr cm)"
      by blast
    then show "\<exists>sd. process_sound w s = Some (Inr sd) \<and> complete_record sd"
      using process_sound_parts [of w s "Some d" dm cm] by (simp add: complete_record_def)
  qed
  then obtain r where r: "\<forall>s \<in> set sl. process_sound w s = Some (Inr (r s)) \<and> complete_record (r s)"
    by (rule bchoice [THEN exE])
  then have r': "\<And>s. s \<in> set sl \<Longrightarrow> process_sound w s = Some (Inr (r s)) \<and> complete_record (r s)"
    by blast
  let ?records = "sort_key sound_id (map r (order sl))"
  from perm have set: "set (order sl) = set sl" by (rule mset_eq_setD)
  have ids: "mset (map sound_id ?records) = mset (map s_sound_id sl)"
  proof -
    have "mset (map sound_id ?records) = image_mset (\<lambda>s. sound_id (r s)) (mset (order sl))"
      by (simp add: multiset.map_comp comp_def)
    also have "\<dots> = image_mset s_sound_id (mset (order sl))"
      using r set by (intro image_mset_cong) (auto dest: process_sound_fields(1))
    finally show ?thesis using perm by simp
  qed
  have empty: "danmaku_uids rec = {}"
    if "rec \<in> set ?records"
      "getdm w (sound_id rec) = NoResponse \<or> getdm w (sound_id rec) = BadStatus
       \<or> getdm w (sound_id rec) = Undecodable" for rec
  proof -
    from that(1) set obtain s where s: "s \<in> set sl" "rec = r s" by auto
    with r have p: "process_sound w s = Some (Inr rec)" by simp
    from process_sound_fields(1,5) [OF p] fetch_all_danmakus_failure [OF that(2)]
    show ?thesis by simp
  qed
  from process_drama_id_complete [where order = order and r = r and out = out, OF lists perm r']
    ids empty
  show "\<exists>out' records paid_udis row.
                   process_drama_id w order drama_id out = Some (out', Inr (records, paid_udis))
                   \<and> drama_writer out' = drama_writer out @ [row]
                   \<and> mset (map sound_id records) = mset (map s_sound_id sl)
                   \<and> (\<forall>rec \<in> set records.
                         getdm w (sound_id rec) = NoResponse \<or> getdm w (sound_id rec) = BadStatus
                         \<or> getdm w (sound_id rec) = Undecodable
                         \<longrightarrow> danmaku_uids rec = {})"
    by (intro exI [of _ "out\<lparr>sound_writer := sound_writer out @ map episode_row ?records,
               drama_writer := drama_writer out @
                 [drama_row drama_id name price views (summary initial (map r (order sl)))]\<rparr>"]
        exI [of _ ?records] exI [of _ "total_paid_udis (summary initial (map r (order sl)))"]
        exI [of _ "drama_row drama_id name price views (summary initial (map r (order sl)))"])
       simp
next
  assume h: "(\<exists>s \<in> set sl. \<exists>e. fetch_all_uids_by_comments w (s_sound_id s) = Some (Inl e))
            \<and> (\<forall>s \<in> set sl. process_sound w s \<noteq> None)"
  then obtain s e where s: "s \<in> set sl" "fetch_all_uids_by_comments w (s_sound_id s) = Some (Inl e)"
    by blast
  from process_sound_comment_error [OF s(2)] obtain e' where "process_sound w s = Some (Inl e')"
    by blast
  with s(1) have "\<not> (\<forall>s \<in> set sl. \<exists>sd. process_sound w s = Some (Inr sd) \<and> complete_record sd)"
    by (auto intro!: bexI [of _ s])
  from process_drama_id_incomplete [where order = order and out = out, OF lists perm this] h
  show "\<exists>e. process_drama_id w order drama_id out = Some (out, Inl e)"
    by simp
qed

text \<open>
  C1, amended. A failure of the inline-comment fetch of an episode (no answer, an error
  status, a body that is not XML) is absorbed: \<^verbatim>\<open>fetch_all_danmakus\<close> returns the empty
  set. So when, for every episode of a drama, the detail fetch yields a view count, the
  inline-comment fetch does not raise and the threaded-comment fetch returns, then
  \<^verbatim>\<open>process_drama_id\<close> returns, having written its summary row, with one record per
  episode, and the inline set of every episode whose inline-comment fetch failed is
  empty. A failure of the threaded-comment fetch is not absorbed: a transport failure on
  the first page makes \<^verbatim>\<open>fetch_all_uids_by_comments\<close> raise, and when it raises for some
  episode of a drama (all episodes being processed to the end), \<^verbatim>\<open>process_drama_id\<close> ends
  with an exception and has written no row, and the run ends: the loop of \<^verbatim>\<open>runner\<close> ends
  at this drama with an exception, whatever follows it in the input, and \<^verbatim>\<open>runner\<close> itself
  ends with an exception and nothing but the two header rows when the drama is the first
  of the input.
\<close>

theorem sub_fetch_failures:
  assumes lists: "get_drama_sound_lists w drama_id = Inr (sl, name, price, views, catalog_name)"
    and perm: "mset (order sl) = mset sl"
  shows "(\<forall>sid. getdm w sid = NoResponse \<or> getdm w sid = BadStatus \<or> getdm w sid = Undecodable
              \<longrightarrow> fetch_all_danmakus w sid = Inr {})
       \<and> ((\<forall>s \<in> set sl.
              (\<exists>d v. get_sound_detail w (s_sound_id s) = Inr (Some d) \<and> view_count d = Some v)
              \<and> (\<exists>dm. fetch_all_danmakus w (s_sound_id s) = Inr dm)
              \<and> (\<exists>cm. fetch_all_uids_by_comments w (s_sound_id s) = Some (Inr cm)))
            \<longrightarrow> (\<exists>out' records paid_udis row.
                   process_drama_id w order drama_id out = Some (out', Inr (records, paid_udis))
                   \<and> drama_writer out' = drama_writer out @ [row]
                   \<and> mset (map sound_id records) = mset (map s_sound_id sl)
                   \<and> (\<forall>rec \<in> set records.
                         getdm w (sound_id rec) = NoResponse \<or> getdm w (sound_id rec) = BadStatus
                         \<or> getdm w (sound_id rec) = Undecodable
                         \<longrightarrow> danmaku_uids rec = {})))
       \<and> (\<forall>sid. getcomment w (endpoint sid 1) = NoResponse
              \<longrightarrow> fetch_all_uids_by_comments w sid = Some (Inl ConnectionError))
       \<and> ((\<exists>s \<in> set sl. \<exists>e. fetch_all_uids_by_comments w (s_sound_id s) = Some (Inl e))
            \<and> (\<forall>s \<in> set sl. process_sound w s \<noteq> None)
            \<longrightarrow> (\<exists>e. process_drama_id w order drama_id out = Some (out, Inl e)))
       \<and> ((\<exists>s \<in> set sl. \<exists>e. fetch_all_uids_by_comments w (s_sound_id s) = Some (Inl e))
            \<and> (\<forall>s \<in> set sl. process_sound w s \<noteq> None)
            \<longrightarrow> (\<forall>completion i field rest drama_sound all_paid.
                   completion i = order \<and> str_strip w field = drama_id \<longrightarrow>
                   (\<exists>e. dramas w completion i (field # rest) out drama_sound all_paid
                          = Some (out, Inl e)))
                \<and> (\<forall>completion drama_ids field rest.
                   completion 0 = order \<and> split CHR '','' drama_ids = field # rest
                   \<and> str_strip w field = drama_id \<longrightarrow>
                   (\<exists>e. runner w completion drama_ids
                          = Some (\<lparr>sound_writer = [sound_header], drama_writer = [drama_header]\<rparr>,
                                  Inl e))))"
proof -
  let ?H = "(\<exists>s \<in> set sl. \<exists>e. fetch_all_uids_by_comments w (s_sound_id s) = Some (Inl e))
        \<and> (\<forall>s \<in> set sl. process_sound w s \<noteq> None)"
  have raises: "\<exists>e. process_drama_id w order drama_id out' = Some (out', Inl e)" if ?H for out'
    by (rule sub_fetch_failures_aux [where order = order and out = out', OF lists perm,
          THEN conjunct2, THEN conjunct2, THEN conjunct2, THEN mp, OF that])
  have loop: "\<exists>e. dramas w completion i (field # rest) out' drama_sound all_paid = Some (out', Inl e)"
    if h: ?H and c: "completion i = order" "str_strip w field = drama_id"
    for completion :: "nat \<Rightarrow> sound list \<Rightarrow> sound list" and i field rest drama_sound all_paid out'
  proof -
    from raises [OF h, of out'] obtain e where
      "process_drama_id w order drama_id out' = Some (out', Inl e)"
      by blast
    then have "process_drama_id w (completion i) (str_strip w field) out' = Some (out', Inl e)"
      by (simp only: c)
    then have "dramas w completion i (field # rest) out' drama_sound all_paid = Some (out', Inl e)"
      by (rule dramas_raises)
    then show ?thesis ..
  qed
  have run: "\<exists>e. runner w completion drama_ids
                  = Some (\<lparr>sound_writer = [sound_header], drama_writer = [drama_header]\<rparr>, Inl e)"
    if h: ?H and c: "completion 0 = order" "split CHR '','' drama_ids = field # rest"
        "str_strip w field = drama_id"
    for completion :: "nat \<Rightarrow> sound list \<Rightarrow> sound list" and drama_ids field rest
  proof -
    from loop [where completion = completion and i = 0 and field = field and rest = rest
        and out' = "\<lparr>sound_writer = [sound_header], drama_writer = [drama_header]\<rparr>"
        and drama_sound = "[]" and all_paid = "{}", OF h c(1) c(3)]
    show ?thesis
      by (simp only: runner_def c(2))
  qed
  have new: "?H \<longrightarrow> (\<forall>completion i field rest drama_sound all_paid.
                   completion i = order \<and> str_strip w field = drama_id \<longrightarrow>
                   (\<exists>e. dramas w completion i (field # rest) out drama_sound all_paid
                          = Some (out, Inl e)))
                \<and> (\<forall>completion drama_ids field rest.
                   completion 0 = order \<and> split CHR '','' drama_ids = field # rest
                   \<and> str_strip w field = drama_id \<longrightarrow>
                   (\<exists>e. runner w completion drama_ids
                          = Some (\<lparr>sound_writer = [sound_header], drama_writer = [drama_header]\<rparr>,
                                  Inl e)))"
  proof (intro impI conjI allI)
    fix completion :: "nat \<Rightarrow> sound list \<Rightarrow> sound list" and i field rest drama_sound all_paid
    assume h: ?H and c: "completion i = order \<and> str_strip w field = drama_id"
    from loop [where completion = completion and i = i and field = field and rest = rest
        and out' = out and drama_sound = drama_sound and all_paid = all_paid,
        OF h c [THEN conjunct1] c [THEN conjunct2]]
    show "\<exists>e. dramas w completion i (field # rest) out drama_sound all_paid = Some (out, Inl e)" .
  next
    fix completion :: "nat \<Rightarrow> sound list \<Rightarrow> sound list" and drama_ids field rest
    assume h: ?H and c: "completion 0 = order \<and> split CHR '','' drama_ids = field # rest
                   \<and> str_strip w field = drama_id"
    from run [where completion = completion and drama_ids = drama_ids and field = field
        and rest = rest, OF h c [THEN conjunct1] c [THEN conjunct2, THEN conjunct1]
        c [THEN conjunct2, THEN conjunct2]]
    show "\<exists>e. runner w completion drama_ids
                  = Some (\<lparr>sound_writer = [sound_header], drama_writer = [drama_header]\<rparr>, Inl e)" .
  qed
  note a = sub_fetch_failures_aux [where order = order and out = out, OF lists perm]
  show ?thesis
    by (rule conjI [OF a [THEN conjunct1]
          conjI [OF a [THEN conjunct2, THEN conjunct1]
            conjI [OF a [THEN conjunct2, THEN conjunct2, THEN conjunct1]
              conjI [OF a [THEN conjunct2, THEN conjunct2, THEN conjunct2] new]]]])
qed

theorem sub_fetch_failures_witness:
  "getdm without_inline 2 = NoResponse
   \<and> process_drama_id without_inline rev ''62452'' no_rows =
       Some (\<lparr>sound_writer = [[CStr ''A'', CTime 200, CInt 0, CInt 2, CInt 2, CInt 3],
                               [CStr ''B'', CTime 100, CInt 1, CInt 0, CInt 0, CInt 0]],
              drama_writer = [[CStr ''62452'', CStr ''N'', CTime 100, CInt 199, CInt 1000,
                               CInt 5, CInt 10, CInt 0, CInt 0, CInt 2, CInt 2, CInt 0, CInt 3]]\<rparr>,
             Inr ([record_A, record_B_without_inline], {}))
   \<and> (\<exists>out' records paid_udis row.
         process_drama_id without_inline rev ''62452'' no_rows = Some (out', Inr (records, paid_udis))
         \<and> drama_writer out' = drama_writer no_rows @ [row]
         \<and> mset (map sound_id records) = mset (map s_sound_id [episode_A, episode_B])
         \<and> (\<forall>rec \<in> set records.
               getdm without_inline (sound_id rec) = NoResponse
               \<or> getdm without_inline (sound_id rec) = BadStatus
               \<or> getdm without_inline (sound_id rec) = Undecodable
               \<longrightarrow> danmaku_uids rec = {}))
   \<and> (\<exists>e. process_drama_id (with_comments NoResponse) rev ''62452'' no_rows = Some (no_rows, Inl e))
   \<and> (\<exists>e. runner (with_comments NoResponse) (\<lambda>i. rev) ''62452,7''
            = Some (\<lparr>sound_writer = [sound_header], drama_writer = [drama_header]\<rparr>, Inl e))"
proof -
  have l: "get_drama_sound_lists without_inline ''62452'' =
     Inr ([episode_A, episode_B], CStr ''N'', CInt 199, CInt 1000, CStr ''C'')"
    by code_simp
  have p: "mset (rev [episode_A, episode_B]) = mset [episode_A, episode_B]"
    by simp
  have d: "get_sound_detail without_inline 1 = Inr (detail record_A)"
    "get_sound_detail without_inline 2 = Inr (detail record_B)"
    by code_simp+
  have dm: "fetch_all_danmakus without_inline 1 = Inr {1, 2}"
    "fetch_all_danmakus without_inline 2 = Inr {}"
    by code_simp+
  have cm: "fetch_all_uids_by_comments without_inline 1 = Some (Inr {2, 3})"
    "fetch_all_uids_by_comments without_inline 2 = Some (Inr {})"
    by code_simp+
  have h: "\<forall>s \<in> set [episode_A, episode_B].
              (\<exists>d v. get_sound_detail without_inline (s_sound_id s) = Inr (Some d) \<and> view_count d = Some v)
              \<and> (\<exists>dm. fetch_all_danmakus without_inline (s_sound_id s) = Inr dm)
              \<and> (\<exists>cm. fetch_all_uids_by_comments without_inline (s_sound_id s) = Some (Inr cm))"
    using d dm cm by (simp add: episode_A_def episode_B_def record_A_def record_B_def)
  have 1: "getdm without_inline 2 = NoResponse"
    by (simp add: without_inline_def)
  have 2: "process_drama_id without_inline rev ''62452'' no_rows =
       Some (\<lparr>sound_writer = [[CStr ''A'', CTime 200, CInt 0, CInt 2, CInt 2, CInt 3],
                               [CStr ''B'', CTime 100, CInt 1, CInt 0, CInt 0, CInt 0]],
              drama_writer = [[CStr ''62452'', CStr ''N'', CTime 100, CInt 199, CInt 1000,
                               CInt 5, CInt 10, CInt 0, CInt 0, CInt 2, CInt 2, CInt 0, CInt 3]]\<rparr>,
             Inr ([record_A, record_B_without_inline], {}))"
    by code_simp
  have l2: "get_drama_sound_lists (with_comments NoResponse) ''62452'' =
     Inr ([episode_A, episode_B], CStr ''N'', CInt 199, CInt 1000, CStr ''C'')"
    by code_simp
  have c2: "fetch_all_uids_by_comments (with_comments NoResponse) (s_sound_id episode_B)
      = Some (Inl ConnectionError)"
    by code_simp
  have t2: "process_sound (with_comments NoResponse) episode_A \<noteq> None"
    "process_sound (with_comments NoResponse) episode_B \<noteq> None"
    by code_simp+
  have h2: "(\<exists>s \<in> set [episode_A, episode_B]. \<exists>e.
               fetch_all_uids_by_comments (with_comments NoResponse) (s_sound_id s) = Some (Inl e))
            \<and> (\<forall>s \<in> set [episode_A, episode_B]. process_sound (with_comments NoResponse) s \<noteq> None)"
    using c2 t2 by auto
  note t1 = sub_fetch_failures [where order = rev and out = no_rows, OF l p]
  note t2 = sub_fetch_failures [where order = rev and out = no_rows, OF l2 p]
  from t1 [THEN conjunct2, THEN conjunct1, THEN mp, OF h]
  have 3: "\<exists>out' records paid_udis row.
         process_drama_id without_inline rev ''62452'' no_rows = Some (out', Inr (records, paid_udis))
         \<and> drama_writer out' = drama_writer no_rows @ [row]
         \<and> mset (map sound_id records) = mset (map s_sound_id [episode_A, episode_B])
         \<and> (\<forall>rec \<in> set records.
               getdm without_inline (sound_id rec) = NoResponse
               \<or> getdm without_inline (sound_id rec) = BadStatus
               \<or> getdm without_inline (sound_id rec) = Undecodable
               \<longrightarrow> danmaku_uids rec = {})"
    .
  from t2 [THEN conjunct2, THEN conjunct2, THEN conjunct2, THEN conjunct1, THEN mp, OF h2]
  have 4: "\<exists>e. process_drama_id (with_comments NoResponse) rev ''62452'' no_rows = Some (no_rows, Inl e)" .
  have sp: "split CHR '','' ''62452,7'' = ''62452'' # [''7'']"
    by code_simp
  have st: "str_strip (with_comments NoResponse) ''62452'' = ''62452''"
    by code_simp
  note r = t2 [THEN conjunct2, THEN conjunct2, THEN conjunct2, THEN conjunct2, THEN mp, OF h2,
      THEN conjunct2, rule_format, of "\<lambda>i. rev" "''62452,7''" "''62452''" "[''7'']"]
  have 5: "\<exists>e. runner (with_comments NoResponse) (\<lambda>i. rev) ''62452,7''
            = Some (\<lparr>sound_writer = [sound_header], drama_writer = [drama_header]\<rparr>, Inl e)"
    by (rule r) (simp add: sp st)
  from 1 2 3 4 5 show ?thesis by blast
qed

end
